theory Spec2Isabelle
  imports Main "HOL-Library.Word"
begin

unbundle bit_operations_syntax

section \<open>Bytes and fixed-width integers\<close>

type_synonym uint8 = "8 word"
type_synonym uint16 = "16 word"
type_synonym uint32 = "32 word"

text \<open>
  Modelled from the spec: the byte order of the Reader and the Writer (\<open>binary_io/reader.h\<close>
  and \<open>binary_io/writer.h\<close> are not among the sources). The container format fixes one
  byte order for every integer: little-endian. \<open>le16_bytes\<close> and \<open>le32_bytes\<close> are the
  encoded fields, \<open>le16_value\<close> and \<open>le32_value\<close> read a field back from its bytes.
\<close>

definition le16_bytes :: "uint16 \<Rightarrow> uint8 list" where
  "le16_bytes v = [ucast v, ucast (drop_bit 8 v)]"

definition le32_bytes :: "uint32 \<Rightarrow> uint8 list" where
  "le32_bytes v = [ucast v, ucast (drop_bit 8 v), ucast (drop_bit 16 v), ucast (drop_bit 24 v)]"

definition le16_value :: "uint8 list \<Rightarrow> uint16" where
  "le16_value bs = ucast (bs ! 0) OR push_bit 8 (ucast (bs ! 1))"

definition le32_value :: "uint8 list \<Rightarrow> uint32" where
  "le32_value bs =
     ucast (bs ! 0) OR push_bit 8 (ucast (bs ! 1)) OR push_bit 16 (ucast (bs ! 2))
       OR push_bit 24 (ucast (bs ! 3))"

text \<open>The bytes of a file from position \<open>p\<close>, \<open>n\<close> of them.\<close>

definition slice :: "'a list \<Rightarrow> nat \<Rightarrow> nat \<Rightarrow> 'a list" where
  "slice xs p n = take n (drop p xs)"

section \<open>The output stream under a StreamSink\<close>

text \<open>
  \<open>io::StreamSink\<close> holds a reference to a \<open>std::ostream\<close>; the texture tool binds it to
  a \<open>std::ofstream\<close> opened in binary mode. The state of the stream is
  \<^item> \<open>os_bytes\<close>: the bytes of the file;
  \<^item> \<open>os_put\<close>: the put position (what \<open>tellp\<close> reports on a good stream);
  \<^item> \<open>os_fail\<close>: failbit or badbit is set;
  \<^item> \<open>os_room\<close>: the number of bytes the medium accepts (a full disk, a file size
    limit); a write that would pass it is refused.

  \<open>StreamSink\<close> is written against any \<open>std::ostream\<close> and never looks at its buffer, so
  the stream is modelled without one: every character reaches the medium in the call
  that writes it, and a refusal shows in that call. On a stream that has a buffer, as
  the \<open>std::ofstream\<close> of the tool has by default, the characters wait there and the same
  refusal shows at the next flush or seek instead, which in \<open>overwrite\<close> is its own
  \<open>seekp\<close>. The values that \<open>write\<close> and \<open>overwrite\<close> return are the same for both.
\<close>

record ostream =
  os_bytes :: "uint8 list"
  os_put :: nat
  os_fail :: bool
  os_room :: nat

text \<open>
  Storing bytes at a position of a file: the bytes there are replaced, the file grows
  when the range passes its end, and a gap between the old end and the position reads
  as zero bytes. Storing nothing changes nothing.
\<close>

definition store_at :: "uint8 list \<Rightarrow> nat \<Rightarrow> uint8 list \<Rightarrow> uint8 list" where
  "store_at xs p bs =
     (if bs = [] then xs
      else take p xs @ replicate (p - length xs) 0 @ bs @ drop (p + length bs) xs)"

text \<open>
  \<open>ostream::write\<close>: nothing happens on a stream that is not good, and a write of no
  characters asks nothing of the medium and cannot fail, wherever the put position is;
  otherwise characters are inserted until all are stored or the medium refuses, in
  which case badbit is set.
\<close>

definition ostream_write :: "ostream \<Rightarrow> uint8 list \<Rightarrow> ostream" where
  "ostream_write s bs =
     (if os_fail s then s
      else if bs = [] then s
      else if os_put s + length bs \<le> os_room s
      then s\<lparr>os_bytes := store_at (os_bytes s) (os_put s) bs, os_put := os_put s + length bs\<rparr>
      else let part = take (os_room s - os_put s) bs
           in s\<lparr>os_bytes := store_at (os_bytes s) (os_put s) part,
                os_put := os_put s + length part, os_fail := True\<rparr>)"

text \<open>\<open>ostream::tellp\<close>: \<open>pos_type(-1)\<close> when \<open>fail()\<close>, the put position otherwise.\<close>

definition ostream_tellp :: "ostream \<Rightarrow> int" where
  "ostream_tellp s = (if os_fail s then - 1 else int (os_put s))"

text \<open>
  \<open>ostream::seekp\<close>: nothing happens when \<open>fail()\<close>; a negative position is refused and
  sets failbit; every other position is accepted, also one past the end of the file.
\<close>

definition ostream_seekp :: "ostream \<Rightarrow> int \<Rightarrow> ostream" where
  "ostream_seekp s p =
     (if os_fail s then s
      else if p < 0 then s\<lparr>os_fail := True\<rparr>
      else s\<lparr>os_put := nat p\<rparr>)"

text \<open>
  The casts of the source between the 64-bit types \<open>std::size_t\<close> (unsigned) and
  \<open>std::streamoff\<close> (signed).
\<close>

definition to_size_t :: "int \<Rightarrow> nat" where
  "to_size_t i = nat (i mod 2 ^ 64)"

definition to_streamoff :: "nat \<Rightarrow> int" where
  "to_streamoff n = (let m = n mod 2 ^ 64 in if m < 2 ^ 63 then int m else int m - 2 ^ 64)"

section \<open>io::StreamSink\<close>

text \<open>
  The sink's only member is the reference \<open>m_dest\<close>, so a sink is the stream it writes
  to, and each member function returns the stream as it leaves it. A buffer
  \<open>(src, size)\<close> is the list of its bytes, \<open>size\<close> its length.
\<close>

definition StreamSink_write :: "ostream \<Rightarrow> uint8 list \<Rightarrow> ostream \<times> nat" where
  "StreamSink_write m_dest src = (ostream_write m_dest src, length src)"

definition StreamSink_overwrite :: "ostream \<Rightarrow> nat \<Rightarrow> uint8 list \<Rightarrow> ostream \<times> nat" where
  "StreamSink_overwrite m_dest position src =
     (let previous = ostream_tellp m_dest;
          d1 = ostream_seekp m_dest (to_streamoff position);
          (d2, result) = StreamSink_write d1 src;
          d3 = ostream_seekp d2 previous
      in (d3, result))"

definition StreamSink_position :: "ostream \<Rightarrow> nat" where
  "StreamSink_position m_dest = to_size_t (ostream_tellp m_dest)"

text \<open>The stream is unbuffered, so \<open>flush\<close> has nothing to hand over.\<close>

definition StreamSink_flush :: "ostream \<Rightarrow> ostream" where
  "StreamSink_flush m_dest = m_dest"

text \<open>
  What a caller of \<open>overwrite\<close> can observe of a refusal: a returned count other than
  the size asked for, or a stream that is no longer good.
\<close>

definition overwrite_refused :: "ostream \<Rightarrow> nat \<Rightarrow> uint8 list \<Rightarrow> bool" where
  "overwrite_refused m_dest position src =
     (snd (StreamSink_overwrite m_dest position src) \<noteq> length src
      \<or> os_fail (fst (StreamSink_overwrite m_dest position src)))"

section \<open>Source and Reader\<close>

text \<open>
  Modelled from the spec: the byte source (\<open>binary_io/stream_source.h\<close> is not among the
  sources). A Source is a byte sequence with a read cursor in \<open>[0, size]\<close>; \<open>read(n)\<close>
  gives exactly \<open>n\<close> bytes or fails, and a read beyond the size fails without advancing
  the cursor; \<open>seek\<close> moves the cursor to an absolute position or fails.
\<close>

record Source =
  src_bytes :: "uint8 list"
  src_cursor :: nat

text \<open>
  Modelled from the spec: \<open>Source::read\<close>, exactly \<open>n\<close> bytes and the cursor advanced, or
  a failure that leaves the cursor.
\<close>

definition Source_read :: "Source \<Rightarrow> nat \<Rightarrow> (uint8 list \<times> Source) option" where
  "Source_read s n =
     (if src_cursor s + n \<le> length (src_bytes s)
      then Some (slice (src_bytes s) (src_cursor s) n, s\<lparr>src_cursor := src_cursor s + n\<rparr>)
      else None)"

text \<open>
  Modelled from the spec: \<open>Source::seek\<close>; a position within \<open>[0, size]\<close> is taken, any other
  is a failure.
\<close>

definition Source_seek :: "Source \<Rightarrow> nat \<Rightarrow> Source option" where
  "Source_seek s p = (if p \<le> length (src_bytes s) then Some (s\<lparr>src_cursor := p\<rparr>) else None)"

text \<open>
  Modelled from the spec: the Reader (\<open>binary_io/reader.h\<close> is not among the sources).
  A Reader is a Source and a success flag that starts true and stays false from the
  first failed primitive on. A typed read on a failed Reader is a no-op; on a good one
  it stores the decoded value and advances the cursor by the field width, or, when
  too few bytes remain, clears the flag and leaves the destination and the cursor.
  The destination is passed in and returned.
\<close>

record Reader =
  r_source :: Source
  r_success :: bool

text \<open>
  Modelled from the spec: the constructor \<open>io::Reader reader{source}\<close> over a Source at the
  start of its bytes; the success flag starts true.
\<close>

definition Reader_open :: "uint8 list \<Rightarrow> Reader" where
  "Reader_open data = \<lparr>r_source = \<lparr>src_bytes = data, src_cursor = 0\<rparr>, r_success = True\<rparr>"

text \<open>
  Modelled from the spec: the primitive under every typed read and skip, a field of \<open>n\<close>
  bytes: a no-op on a failed Reader; otherwise the bytes of the field, or the flag cleared
  when the Source has too few.
\<close>

definition read_field :: "Reader \<Rightarrow> nat \<Rightarrow> Reader \<times> uint8 list option" where
  "read_field r n =
     (if \<not> r_success r then (r, None)
      else case Source_read (r_source r) n of
             None \<Rightarrow> (r\<lparr>r_success := False\<rparr>, None)
           | Some (bs, s) \<Rightarrow> (r\<lparr>r_source := s\<rparr>, Some bs))"

text \<open>
  Modelled from the spec: \<open>io::read<uint8>\<close>; on failure the destination keeps its prior
  value.
\<close>

definition read_uint8 :: "Reader \<Rightarrow> uint8 \<Rightarrow> Reader \<times> uint8" where
  "read_uint8 r dest =
     (case read_field r 1 of (r', None) \<Rightarrow> (r', dest) | (r', Some bs) \<Rightarrow> (r', bs ! 0))"

text \<open>
  Modelled from the spec: \<open>io::read<uint8>\<close> into a \<open>bool\<close> destination (\<open>hasMips\<close>, a 1-byte
  boolean): any non-zero byte is true.
\<close>

definition read_uint8_bool :: "Reader \<Rightarrow> bool \<Rightarrow> Reader \<times> bool" where
  "read_uint8_bool r dest =
     (case read_field r 1 of (r', None) \<Rightarrow> (r', dest) | (r', Some bs) \<Rightarrow> (r', bs ! 0 \<noteq> 0))"

text \<open>Modelled from the spec: \<open>io::read<uint16>\<close>, two bytes, little-endian.\<close>

definition read_uint16 :: "Reader \<Rightarrow> uint16 \<Rightarrow> Reader \<times> uint16" where
  "read_uint16 r dest =
     (case read_field r 2 of (r', None) \<Rightarrow> (r', dest) | (r', Some bs) \<Rightarrow> (r', le16_value bs))"

text \<open>Modelled from the spec: \<open>io::read<uint32>\<close>, four bytes, little-endian.\<close>

definition read_uint32 :: "Reader \<Rightarrow> uint32 \<Rightarrow> Reader \<times> uint32" where
  "read_uint32 r dest =
     (case read_field r 4 of (r', None) \<Rightarrow> (r', dest) | (r', Some bs) \<Rightarrow> (r', le32_value bs))"

text \<open>
  Modelled from the spec: \<open>io::read<int32>\<close>. An \<open>int32\<close> is the same four bytes; its sign
  is read with \<open>sint\<close> where it matters.
\<close>

definition read_int32 :: "Reader \<Rightarrow> uint32 \<Rightarrow> Reader \<times> uint32" where
  "read_int32 r dest = read_uint32 r dest"

text \<open>
  Modelled from the spec: \<open>io::skip<T>()\<close> consumes \<open>sizeof(T)\<close> bytes and produces no
  value; it fails as a read of that width does.
\<close>

definition skip :: "Reader \<Rightarrow> nat \<Rightarrow> Reader" where
  "skip r n = fst (read_field r n)"

text \<open>
  Modelled from the spec: \<open>io::read_range(container)\<close> decodes as many elements as the
  container has slots, in sequence, into the slots (here the \<open>uint32\<close> slots of the two
  header arrays); after a failed element the remaining slots keep what they held.
\<close>

fun read_range :: "Reader \<Rightarrow> uint32 list \<Rightarrow> Reader \<times> uint32 list" where
  "read_range r [] = (r, [])"
| "read_range r (d # ds) =
     (let (r1, d') = read_uint32 r d;
          (r2, ds') = read_range r1 ds
      in (r2, d' # ds'))"

text \<open>
  Modelled from the spec: a chained Reader expression \<open>reader >> op1 >> ... >> opk\<close> in
  general. Each operation carries its destination, and the chain returns the Reader and
  the operations with their destinations as the chain leaves them.
\<close>

datatype read_op =
    ReadU8 uint8
  | ReadBool bool
  | ReadU16 uint16
  | ReadU32 uint32
  | ReadI32 uint32
  | Skip nat
  | ReadRange "uint32 list"

text \<open>Modelled from the spec: one operation of a chain, \<open>reader >> op\<close>.\<close>

fun apply_op :: "Reader \<Rightarrow> read_op \<Rightarrow> Reader \<times> read_op" where
  "apply_op r (ReadU8 d) = (let (r', v) = read_uint8 r d in (r', ReadU8 v))"
| "apply_op r (ReadBool d) = (let (r', v) = read_uint8_bool r d in (r', ReadBool v))"
| "apply_op r (ReadU16 d) = (let (r', v) = read_uint16 r d in (r', ReadU16 v))"
| "apply_op r (ReadU32 d) = (let (r', v) = read_uint32 r d in (r', ReadU32 v))"
| "apply_op r (ReadI32 d) = (let (r', v) = read_int32 r d in (r', ReadI32 v))"
| "apply_op r (Skip n) = (skip r n, Skip n)"
| "apply_op r (ReadRange ds) = (let (r', vs) = read_range r ds in (r', ReadRange vs))"

text \<open>Modelled from the spec: the chain, its operations applied from left to right.\<close>

fun run_chain :: "Reader \<Rightarrow> read_op list \<Rightarrow> Reader \<times> read_op list" where
  "run_chain r [] = (r, [])"
| "run_chain r (op # ops) =
     (let (r1, op') = apply_op r op;
          (r2, ops') = run_chain r1 ops
      in (r2, op' # ops'))"

section \<open>The container header\<close>

text \<open>
  Modelled from the spec: the records \<open>PreHeader\<close> and \<open>v1_0::Header\<close> (\<open>tex/pre_header.h\<close>
  and \<open>tex_v1_0/header.h\<close> are not among the sources). The source names the fields
  \<open>version\<close>, \<open>compression\<close>, \<open>hasMips\<close>, \<open>width\<close>, \<open>height\<close>, \<open>mipmapOffsets\<close> and
  \<open>mipmapLengths\<close>; the two arrays have a fixed number of slots, which is not encoded in
  the stream.
\<close>

record PreHeader =
  magic :: uint16
  version :: uint32

text \<open>
  Modelled from the spec: \<open>v1_0::Header\<close>, constructed from a version, with the fields the
  source reads and writes.
\<close>

record Header = PreHeader +
  compression :: uint8
  hasMips :: bool
  width :: uint16
  height :: uint16
  mipmapOffsets :: "uint32 list"
  mipmapLengths :: "uint32 list"

text \<open>
  Modelled from the spec: the format-wide constants, whose values the spec does not
  give: the magic tag, the value of \<open>Version_1_0\<close> and the fixed mip count.
\<close>

record Format =
  FileMagic :: uint16
  Version_1_0 :: uint32
  FixedMipCount :: nat

text \<open>
  Modelled from the spec: the enumerator \<open>v1_0::NotCompressed\<close>; compression code 0 is
  uncompressed.
\<close>

definition NotCompressed :: uint8 where
  "NotCompressed = 0"

text \<open>
  Modelled from the spec: the constructor \<open>Header(version)\<close>; every slot of the two
  arrays starts as 0.
\<close>

definition Header_init :: "Format \<Rightarrow> uint32 \<Rightarrow> Header" where
  "Header_init fmt v =
     \<lparr>magic = FileMagic fmt, version = v, compression = 0, hasMips = False, width = 0,
      height = 0, mipmapOffsets = replicate (FixedMipCount fmt) 0,
      mipmapLengths = replicate (FixedMipCount fmt) 0\<rparr>"

text \<open>
  \<open>v1_0::loadHeader\<close> (\<open>tex_v1_0/header_load.cpp\<close>): one chained expression; the result
  is the Reader converted to \<open>bool\<close>, its success flag.
\<close>

definition loadHeader :: "Header \<Rightarrow> Reader \<Rightarrow> bool \<times> Header \<times> Reader" where
  "loadHeader header reader =
     (let (r1, c) = read_uint8 reader (compression header);
          (r2, m) = read_uint8_bool r1 (hasMips header);
          (r3, w) = read_uint16 r2 (width header);
          (r4, h) = read_uint16 r3 (height header);
          (r5, offs) = read_range r4 (mipmapOffsets header);
          (r6, lens) = read_range r5 (mipmapLengths header)
      in (r_success r6,
          header\<lparr>compression := c, hasMips := m, width := w, height := h,
                 mipmapOffsets := offs, mipmapLengths := lens\<rparr>,
          r6))"

text \<open>
  Modelled from the spec: \<open>loadPreHeader\<close> (\<open>tex/pre_header_load.h\<close> is not among the
  sources) decodes the magic and the version and succeeds when both reads did and the
  magic is the format's.
\<close>

definition loadPreHeader :: "Format \<Rightarrow> PreHeader \<Rightarrow> Reader \<Rightarrow> bool \<times> PreHeader \<times> Reader" where
  "loadPreHeader fmt pre reader =
     (let (r1, g) = read_uint16 reader (magic pre);
          (r2, v) = read_uint32 r1 (version pre)
      in (r_success r2 \<and> g = FileMagic fmt, pre\<lparr>magic := g, version := v\<rparr>, r2))"

text \<open>
  The \<open>--info\<close> branch of \<open>main\<close> (\<open>texture_tool/main.cpp\<close>) up to the loaded header: the
  exit status, and the header it goes on to describe.
\<close>

definition main_info :: "Format \<Rightarrow> uint8 list \<Rightarrow> int \<times> Header option" where
  "main_info fmt srcFile =
     (let reader = Reader_open srcFile;
          (ok, preHeader, reader) = loadPreHeader fmt \<lparr>magic = 0, version = 0\<rparr> reader
      in if \<not> ok then (1, None)
         else if version preHeader = Version_1_0 fmt
         then (let (ok, header, reader) = loadHeader (Header_init fmt (version preHeader)) reader
               in if \<not> ok then (1, None) else (0, Some header))
         else (1, None))"

section \<open>Writer and the deferred-patch saver\<close>

text \<open>
  Modelled from the spec: the Writer (\<open>binary_io/writer.h\<close> is not among the sources): a
  typed field write appends the field's little-endian bytes to the Sink.
\<close>

definition write_uint8 :: "ostream \<Rightarrow> uint8 \<Rightarrow> ostream" where
  "write_uint8 sink v = fst (StreamSink_write sink [v])"

text \<open>Modelled from the spec: \<open>io::write<uint16>\<close>, two bytes, little-endian.\<close>

definition write_uint16 :: "ostream \<Rightarrow> uint16 \<Rightarrow> ostream" where
  "write_uint16 sink v = fst (StreamSink_write sink (le16_bytes v))"

text \<open>Modelled from the spec: \<open>io::write<uint32>\<close>, four bytes, little-endian.\<close>

definition write_uint32 :: "ostream \<Rightarrow> uint32 \<Rightarrow> ostream" where
  "write_uint32 sink v = fst (StreamSink_write sink (le32_bytes v))"

text \<open>
  Modelled from the spec: \<open>v1_0::HeaderSaver\<close> (\<open>tex_v1_0/header_save.h\<close> is not among the
  sources). Its constructor writes the pre-header and the header with every offset and
  length field as a zero placeholder, and records the absolute Sink position at which
  each placeholder field begins. \<open>finish()\<close> overwrites each recorded field with the
  value the header holds by then. The saver refers to the caller's header, so
  \<open>finish\<close> takes the header as it is at that moment.
\<close>

record HeaderSaver =
  offsetFields :: "nat list"
  lengthFields :: "nat list"

text \<open>
  Modelled from the spec: the constructor's writing of \<open>n\<close> placeholder fields, each
  preceded by the recording of the Sink position at which it begins.
\<close>

fun write_placeholders :: "ostream \<Rightarrow> nat \<Rightarrow> ostream \<times> nat list" where
  "write_placeholders sink 0 = (sink, [])"
| "write_placeholders sink (Suc n) =
     (let p = StreamSink_position sink;
          s1 = write_uint32 sink 0;
          (s2, ps) = write_placeholders s1 n
      in (s2, p # ps))"

text \<open>
  Modelled from the spec: the constructor \<open>HeaderSaver saver{sink, header}\<close>; the fields in
  the order of the file layout.
\<close>

definition HeaderSaver_open :: "ostream \<Rightarrow> Header \<Rightarrow> HeaderSaver \<times> ostream" where
  "HeaderSaver_open sink header =
     (let s1 = write_uint16 sink (magic header);
          s2 = write_uint32 s1 (version header);
          s3 = write_uint8 s2 (compression header);
          s4 = write_uint8 s3 (if hasMips header then 1 else 0);
          s5 = write_uint16 s4 (width header);
          s6 = write_uint16 s5 (height header);
          (s7, offs) = write_placeholders s6 (length (mipmapOffsets header));
          (s8, lens) = write_placeholders s7 (length (mipmapLengths header))
      in (\<lparr>offsetFields = offs, lengthFields = lens\<rparr>, s8))"

text \<open>
  Modelled from the spec: for each recorded field position, \<open>Sink.overwrite\<close> of the
  position with the bytes of the value now known.
\<close>

fun patch_fields :: "ostream \<Rightarrow> nat list \<Rightarrow> uint32 list \<Rightarrow> ostream" where
  "patch_fields sink (p # ps) (v # vs) =
     patch_fields (fst (StreamSink_overwrite sink p (le32_bytes v))) ps vs"
| "patch_fields sink ps vs = sink"

text \<open>Modelled from the spec: \<open>HeaderSaver::finish()\<close>, the offsets and then the lengths.\<close>

definition HeaderSaver_finish :: "HeaderSaver \<Rightarrow> Header \<Rightarrow> ostream \<Rightarrow> ostream" where
  "HeaderSaver_finish saver header sink =
     patch_fields (patch_fields sink (offsetFields saver) (mipmapOffsets header))
       (lengthFields saver) (mipmapLengths header)"

text \<open>
  Modelled from the spec: the caller's part of the protocol for any number of payload
  segments. For segment \<open>i\<close> the caller records in the header the Sink position at which
  the segment begins and its length, both as \<open>uint32\<close>, and appends the segment.
  \<open>main\<close> does exactly this for its one segment, at slot 0.
\<close>

fun write_segments :: "ostream \<Rightarrow> Header \<Rightarrow> nat \<Rightarrow> uint8 list list \<Rightarrow> ostream \<times> Header" where
  "write_segments sink header i [] = (sink, header)"
| "write_segments sink header i (seg # segs) =
     (let h1 = header\<lparr>mipmapOffsets :=
                 (mipmapOffsets header)[i := word_of_nat (StreamSink_position sink)]\<rparr>;
          h2 = h1\<lparr>mipmapLengths := (mipmapLengths h1)[i := word_of_nat (length seg)]\<rparr>;
          (s1, n) = StreamSink_write sink seg
      in write_segments s1 h2 (Suc i) segs)"

text \<open>
  Modelled from the spec: the save sequence as a whole: the saver's constructor, the
  caller's segments, \<open>finish()\<close>. It returns the stream and the header the caller holds at
  the end.
\<close>

definition deferred_save :: "ostream \<Rightarrow> Header \<Rightarrow> uint8 list list \<Rightarrow> ostream \<times> Header" where
  "deferred_save sink header segs =
     (let (saver, s1) = HeaderSaver_open sink header;
          (s2, h2) = write_segments s1 header 0 segs;
          s3 = HeaderSaver_finish saver h2 s2
      in (s3, h2))"

text \<open>
  Modelled from the spec: the container file layout of a header, which the spec calls the
  file written once: the pre-header, the header fields and the two arrays.
\<close>

definition header_image :: "Header \<Rightarrow> uint8 list" where
  "header_image h =
     le16_bytes (magic h) @ le32_bytes (version h) @ [compression h]
       @ [if hasMips h then 1 else 0] @ le16_bytes (width h) @ le16_bytes (height h)
       @ concat (map le32_bytes (mipmapOffsets h)) @ concat (map le32_bytes (mipmapLengths h))"

text \<open>Where the file holds offset slot \<open>i\<close> and length slot \<open>i\<close> of a header with \<open>n\<close> slots.\<close>

definition offset_slot :: "nat \<Rightarrow> nat" where
  "offset_slot i = 12 + 4 * i"

definition length_slot :: "nat \<Rightarrow> nat \<Rightarrow> nat" where
  "length_slot n i = 12 + 4 * n + 4 * i"

definition header_size :: "nat \<Rightarrow> nat" where
  "header_size n = 12 + 8 * n"

text \<open>Where segment \<open>i\<close> of a payload begins in a file whose header has \<open>n\<close> slots.\<close>

definition segment_start :: "nat \<Rightarrow> uint8 list list \<Rightarrow> nat \<Rightarrow> nat" where
  "segment_start n segs i = header_size n + length (concat (take i segs))"

section \<open>The texture tool\<close>

datatype ImageFormat = RGB | RGBA | DXT1 | DXT3 | DXT5

text \<open>The output parameters of \<open>IImageParser::Parse\<close>, passed in and returned.\<close>

record ImageOut =
  out_width :: uint16
  out_height :: uint16
  out_format :: ImageFormat
  out_pixels :: "uint8 list"

definition LOWORD :: "uint32 \<Rightarrow> uint16" where
  "LOWORD l = ucast (l AND 0xffff)"

definition HIWORD :: "uint32 \<Rightarrow> uint16" where
  "HIWORD l = ucast (drop_bit 16 l AND 0xffff)"

text \<open>
  \<open>HIWORD(v) + ((uint32)LOWORD(v) << 16)\<close>, computed in \<open>uint32\<close> and, for the two sizes,
  stored back into the \<open>int32\<close>.
\<close>

definition swap_words :: "uint32 \<Rightarrow> uint32" where
  "swap_words v = ucast (HIWORD v) + push_bit 16 (ucast (LOWORD v))"

text \<open>\<open>std::abs\<close> on an \<open>int32\<close> (the most negative value is left as it is).\<close>

definition abs_int32 :: "uint32 \<Rightarrow> uint32" where
  "abs_int32 v = (if sint v < 0 then - v else v)"

text \<open>
  An exception that leaves the function which raised it. The \<open>try\<close> block of \<open>main\<close>
  catches \<open>cxxopts::OptionException\<close> only, so an exception of another type leaves \<open>main\<close>
  as well, and the program is terminated without an exit status of its own.
\<close>

datatype failure = length_error

text \<open>
  \<open>pixels.reserve(width * height * 3)\<close>. The two \<open>uint16\<close> are promoted to \<open>int\<close> and
  the product is an \<open>int\<close> of 32 bits; where it passes \<open>2^31\<close> the language leaves the
  result open, and the model takes the wrapped value that the compilers of the project
  compute. The conversion to \<open>size_t\<close> turns a negative product into a request above
  \<open>max_size()\<close> of the vector, on which \<open>reserve\<close> throws \<open>std::length_error\<close>. Memory is
  taken to suffice for every request within \<open>max_size()\<close>.
\<close>

definition reserve_request :: "uint16 \<Rightarrow> uint16 \<Rightarrow> nat" where
  "reserve_request w h = to_size_t (sint ((ucast w :: uint32) * ucast h * 3))"

definition vector_max_size :: nat where
  "vector_max_size = 2 ^ 63 - 1"

definition reserve_throws :: "uint16 \<Rightarrow> uint16 \<Rightarrow> bool" where
  "reserve_throws w h = (vector_max_size < reserve_request w h)"

text \<open>
  The pixel loop of \<open>BmpImageParser::Parse\<close>: \<open>n\<close> pixels, three bytes each, stored as
  red, green, blue.
\<close>

fun read_pixels :: "nat \<Rightarrow> Reader \<Rightarrow> uint8 list \<Rightarrow> bool \<times> Reader \<times> uint8 list" where
  "read_pixels 0 reader pixels = (True, reader, pixels)"
| "read_pixels (Suc n) reader pixels =
     (let (r1, b) = read_uint8 reader 0;
          (r2, g) = read_uint8 r1 0;
          (r3, r) = read_uint8 r2 0
      in if \<not> r_success r3 then (False, r3, pixels)
         else read_pixels n r3 (pixels @ [r, g, b]))"

text \<open>
  \<open>BmpImageParser::Parse\<close> (\<open>texture_tool/main.cpp\<close>). Each \<open>return false\<close> of the source
  is a branch; the outputs are those assigned so far. The result is \<open>Inr\<close> of the
  returned value and the outputs, or \<open>Inl\<close> of the exception that left the function.
\<close>

definition Parse :: "uint8 list \<Rightarrow> ImageOut \<Rightarrow> failure + bool \<times> ImageOut" where
  "Parse data out =
     (let reader = Reader_open data;
          (reader, bmpMagic) = read_uint16 reader 0
      in if \<not> r_success reader \<or> bmpMagic \<noteq> 0x4D42 then Inr (False, out)
      else
      let reader = skip reader 2;
          reader = skip reader 4;
          minSupportedPixelOffset = 54;
          (reader, pixelOffset) = read_uint32 reader 0
      in if \<not> r_success reader \<or> pixelOffset < minSupportedPixelOffset then Inr (False, out)
      else
      let reader = skip reader 4;
          (reader, bmWidth) = read_int32 reader 0;
          (reader, bmHeight) = read_int32 reader 0
      in if \<not> r_success reader then Inr (False, out)
      else
      let bmWidth = swap_words bmWidth;
          bmHeight = swap_words bmHeight;
          out = out\<lparr>out_width := ucast bmWidth, out_height := ucast (abs_int32 bmHeight)\<rparr>
      in if out_width out = 0 \<or> out_height out = 0 then Inr (False, out)
      else
      let reader = skip reader 4;
          (reader, bpp) = read_uint16 reader 0
      in if \<not> r_success reader then Inr (False, out)
      else if bpp \<noteq> 24 \<and> bpp \<noteq> 32 then Inr (False, out)
      else
      let (reader, compression) = read_uint32 reader 0
      in if \<not> r_success reader then Inr (False, out)
      else
      let pixelOffset = swap_words pixelOffset;
          reader = reader\<lparr>r_source :=
                     (case Source_seek (r_source reader) (unat pixelOffset) of
                        None \<Rightarrow> r_source reader | Some s \<Rightarrow> s)\<rparr>
      in if compression = 0
         then (if reserve_throws (out_width out) (out_height out) then Inl length_error
               else
               let out = out\<lparr>out_format := RGB\<rparr>;
                   (ok, reader, pixels) =
                      read_pixels (unat (out_width out) * unat (out_height out)) reader
                        (out_pixels out)
               in Inr (ok, out\<lparr>out_pixels := pixels\<rparr>))
         else Inr (True, out))"

text \<open>
  The parser without the word manipulation of lines 90, 91 and 123: the three fields
  are used as they were read. It is what the parser is compared with.
\<close>

definition Parse_unswapped :: "uint8 list \<Rightarrow> ImageOut \<Rightarrow> failure + bool \<times> ImageOut" where
  "Parse_unswapped data out =
     (let reader = Reader_open data;
          (reader, bmpMagic) = read_uint16 reader 0
      in if \<not> r_success reader \<or> bmpMagic \<noteq> 0x4D42 then Inr (False, out)
      else
      let reader = skip reader 2;
          reader = skip reader 4;
          minSupportedPixelOffset = 54;
          (reader, pixelOffset) = read_uint32 reader 0
      in if \<not> r_success reader \<or> pixelOffset < minSupportedPixelOffset then Inr (False, out)
      else
      let reader = skip reader 4;
          (reader, bmWidth) = read_int32 reader 0;
          (reader, bmHeight) = read_int32 reader 0
      in if \<not> r_success reader then Inr (False, out)
      else
      let out = out\<lparr>out_width := ucast bmWidth, out_height := ucast (abs_int32 bmHeight)\<rparr>
      in if out_width out = 0 \<or> out_height out = 0 then Inr (False, out)
      else
      let reader = skip reader 4;
          (reader, bpp) = read_uint16 reader 0
      in if \<not> r_success reader then Inr (False, out)
      else if bpp \<noteq> 24 \<and> bpp \<noteq> 32 then Inr (False, out)
      else
      let (reader, compression) = read_uint32 reader 0
      in if \<not> r_success reader then Inr (False, out)
      else
      let reader = reader\<lparr>r_source :=
                     (case Source_seek (r_source reader) (unat pixelOffset) of
                        None \<Rightarrow> r_source reader | Some s \<Rightarrow> s)\<rparr>
      in if compression = 0
         then (if reserve_throws (out_width out) (out_height out) then Inl length_error
               else
               let out = out\<lparr>out_format := RGB\<rparr>;
                   (ok, reader, pixels) =
                      read_pixels (unat (out_width out) * unat (out_height out)) reader
                        (out_pixels out)
               in Inr (ok, out\<lparr>out_pixels := pixels\<rparr>))
         else Inr (True, out))"

text \<open>
  The three 32-bit fields as the parser's reads deliver them: the reads are at
  positions 8 (pixel offset), 16 (width) and 20 (height) of the input.
\<close>

definition field_at :: "uint8 list \<Rightarrow> nat \<Rightarrow> uint32" where
  "field_at data p = le32_value (slice data p 4)"

text \<open>
  The fields of a bitmap file where the file format puts them (\<open>BITMAPFILEHEADER\<close>, then
  \<open>BITMAPINFOHEADER\<close>): the file size at byte 2, the reserved words at 6, the pixel offset
  at 10, the size of the info header at 14, the width at 18, the height at 22, the planes
  at 26, the bits per pixel at 28 and the compression at 30. The three fields that the
  parser reads at 8, 16 and 20 begin two bytes later in the file.
\<close>

definition bfSize :: "uint8 list \<Rightarrow> uint32" where
  "bfSize data = field_at data 2"

definition bfReserved :: "uint8 list \<Rightarrow> uint32" where
  "bfReserved data = field_at data 6"

definition bfOffBits :: "uint8 list \<Rightarrow> uint32" where
  "bfOffBits data = field_at data 10"

definition biSize :: "uint8 list \<Rightarrow> uint32" where
  "biSize data = field_at data 14"

definition biWidth :: "uint8 list \<Rightarrow> uint32" where
  "biWidth data = field_at data 18"

definition biHeight :: "uint8 list \<Rightarrow> uint32" where
  "biHeight data = field_at data 22"

definition biPlanes :: "uint8 list \<Rightarrow> uint16" where
  "biPlanes data = le16_value (slice data 26 2)"

definition biBitCount :: "uint8 list \<Rightarrow> uint16" where
  "biBitCount data = le16_value (slice data 28 2)"

definition biCompression :: "uint8 list \<Rightarrow> uint32" where
  "biCompression data = field_at data 30"

text \<open>
  The bytes of one pixel row, padded to a multiple of four, for rows that are stored
  pixel by pixel (compression \<open>BI_RGB\<close> or \<open>BI_BITFIELDS\<close>).
\<close>

definition row_bytes :: "uint8 list \<Rightarrow> nat" where
  "row_bytes data = (unat (biBitCount data) * unat (biWidth data) + 31) div 32 * 4"

text \<open>
  A well-formed bitmap file with such rows: the signature \<open>BM\<close>, a file size field
  equal to the length of the file, the reserved words 0, an info header of at least 40
  bytes that ends before the pixel data, a positive width and a height other than 0
  (both signed, the height negative for rows stored top-down), one plane, and all the
  rows of the image within the file from the pixel offset on.
\<close>

definition bmp_wellformed :: "uint8 list \<Rightarrow> bool" where
  "bmp_wellformed data =
     (54 \<le> length data
      \<and> le16_value (slice data 0 2) = 0x4D42
      \<and> unat (bfSize data) = length data
      \<and> bfReserved data = 0
      \<and> 40 \<le> unat (biSize data)
      \<and> 14 + unat (biSize data) \<le> unat (bfOffBits data)
      \<and> 0 < sint (biWidth data)
      \<and> sint (biHeight data) \<noteq> 0
      \<and> biPlanes data = 1
      \<and> unat (bfOffBits data) + row_bytes data * nat \<bar>sint (biHeight data)\<bar> \<le> length data)"

text \<open>The loop of \<open>main\<close> that looks for powers of two, one step for each \<open>i\<close>.\<close>

definition mip_step :: "Header \<Rightarrow> bool \<times> bool \<times> nat \<Rightarrow> nat \<Rightarrow> bool \<times> bool \<times> nat" where
  "mip_step header st i =
     (let (widthIsPow2, heightIsPow2, mipCount) = st;
          (widthIsPow2, mipCount) =
             (if unat (width header) = 2 ^ i
              then (True, if mipCount = 0 then i + 1 else mipCount)
              else (widthIsPow2, mipCount));
          (heightIsPow2, mipCount) =
             (if unat (height header) = 2 ^ i
              then (True, if mipCount = 0 then i + 1 else mipCount)
              else (heightIsPow2, mipCount))
      in (widthIsPow2, heightIsPow2, mipCount))"

text \<open>
  The block of \<open>main\<close> that writes the file (lines 296 to 346): the stream and the header
  as the block leaves them.
\<close>

definition save_texture ::
  "Format \<Rightarrow> uint16 \<Rightarrow> uint16 \<Rightarrow> uint8 list \<Rightarrow> ostream \<Rightarrow> ostream \<times> Header" where
  "save_texture fmt w h pixelData dstFile =
     (let sink = dstFile;
          header = Header_init fmt (Version_1_0 fmt);
          header = header\<lparr>width := w, height := h, compression := NotCompressed\<rparr>;
          (widthIsPow2, heightIsPow2, mipCount) =
             foldl (mip_step header) (False, False, 0) [0..<16];
          header = header\<lparr>hasMips := widthIsPow2 \<and> heightIsPow2\<rparr>;
          (saver, sink) = HeaderSaver_open sink header;
          contentPos = StreamSink_position sink;
          header = header\<lparr>mipmapOffsets :=
                     (mipmapOffsets header)[0 := word_of_nat (StreamSink_position sink)]\<rparr>;
          header = header\<lparr>mipmapLengths :=
                     (mipmapLengths header)[0 := word_of_nat (length pixelData)]\<rparr>;
          (sink, n) = StreamSink_write sink pixelData;
          sink = HeaderSaver_finish saver header sink
      in (sink, header))"

text \<open>
  The conversion branch of \<open>main\<close> from the parsing of the source on: the exit status
  and the target file (\<open>None\<close> when the tool left before opening it), or the exception
  that left \<open>main\<close>, which happens before the target is opened. \<open>dstFile\<close> is the target
  as \<open>std::ofstream\<close> opens it; \<open>format\<close> is the uninitialised local of \<open>main\<close>.
\<close>

definition main_convert ::
  "Format \<Rightarrow> uint8 list \<Rightarrow> ImageFormat \<Rightarrow> ostream \<Rightarrow> failure + int \<times> ostream option" where
  "main_convert fmt srcFile format dstFile =
     (case Parse srcFile
             \<lparr>out_width = 0, out_height = 0, out_format = format, out_pixels = []\<rparr> of
        Inl e \<Rightarrow> Inl e
      | Inr (ok, img) \<Rightarrow>
          if \<not> ok then Inr (1, None)
          else if os_fail dstFile then Inr (1, Some dstFile)
          else (let (sink, header) =
                      save_texture fmt (out_width img) (out_height img) (out_pixels img) dstFile
                in Inr (0, Some sink)))"

section \<open>Notions for stating the save path\<close>

text \<open>
  A stream as \<open>std::ofstream\<close> opens it for the tool: empty, at position 0 and good, on a
  medium whose limit is a valid stream offset.
\<close>

definition fresh_stream :: "ostream \<Rightarrow> bool" where
  "fresh_stream s = (os_bytes s = [] \<and> os_put s = 0 \<and> \<not> os_fail s \<and> os_room s < 2 ^ 63)"

text \<open>
  A stream that is good, whose put position is the end of the file, and whose medium
  has room for \<open>n\<close> more bytes.
\<close>

definition appendable :: "ostream \<Rightarrow> nat \<Rightarrow> bool" where
  "appendable s n = (\<not> os_fail s \<and> os_put s = length (os_bytes s)
      \<and> length (os_bytes s) + n \<le> os_room s \<and> os_room s < 2 ^ 63)"

text \<open>The stream after appending bytes that the medium accepts.\<close>

definition grow :: "ostream \<Rightarrow> uint8 list \<Rightarrow> ostream" where
  "grow s bs = s\<lparr>os_bytes := os_bytes s @ bs, os_put := length (os_bytes s) + length bs\<rparr>"

text \<open>
  What the caller records for a list of segments appended from position \<open>base\<close> on: the
  position at which each begins, and the length of each, as \<open>uint32\<close>.
\<close>

definition seg_offsets :: "nat \<Rightarrow> uint8 list list \<Rightarrow> uint32 list" where
  "seg_offsets base segs =
     map (\<lambda>j. word_of_nat (base + length (concat (take j segs)))) [0..<length segs]"

definition seg_lengths :: "uint8 list list \<Rightarrow> uint32 list" where
  "seg_lengths segs = map (\<lambda>seg. word_of_nat (length seg)) segs"

text \<open>
  The header the caller holds after recording the segments from slot 0 on, in a file whose
  header has \<open>n\<close> slots.
\<close>

definition recorded :: "nat \<Rightarrow> Header \<Rightarrow> uint8 list list \<Rightarrow> Header" where
  "recorded n h segs =
     h\<lparr>mipmapOffsets := seg_offsets (header_size n) segs @ drop (length segs) (mipmapOffsets h),
       mipmapLengths := seg_lengths segs @ drop (length segs) (mipmapLengths h)\<rparr>"

text \<open>The header as the saver's constructor writes it: every slot a zero placeholder.\<close>

definition placeholder_image :: "Header \<Rightarrow> uint8 list" where
  "placeholder_image h =
     le16_bytes (magic h) @ le32_bytes (version h) @ [compression h]
       @ [if hasMips h then 1 else 0] @ le16_bytes (width h) @ le16_bytes (height h)
       @ concat (replicate (length (mipmapOffsets h)) (le32_bytes 0))
       @ concat (replicate (length (mipmapLengths h)) (le32_bytes 0))"

text \<open>The header of \<open>main\<close> when it constructs the saver (lines 304 to 328).\<close>

definition texture_header :: "Format \<Rightarrow> uint16 \<Rightarrow> uint16 \<Rightarrow> Header" where
  "texture_header fmt w h =
     (let header = Header_init fmt (Version_1_0 fmt);
          header = header\<lparr>width := w, height := h, compression := NotCompressed\<rparr>;
          (widthIsPow2, heightIsPow2, mipCount) =
             foldl (mip_step header) (False, False, 0) [0..<16]
      in header\<lparr>hasMips := widthIsPow2 \<and> heightIsPow2\<rparr>)"

section \<open>Casts and stream primitives\<close>

lemma to_streamoff_small: "n < 2 ^ 63 \<Longrightarrow> to_streamoff n = int n"
proof -
  assume a: "n < 2 ^ 63"
  have "(2::nat) ^ 63 < 2 ^ 64" by (rule power_strict_increasing) simp_all
  with a have "n < 2 ^ 64" by (rule less_trans)
  then have "n mod 2 ^ 64 = n" by (rule mod_less)
  with a show ?thesis unfolding to_streamoff_def Let_def by (simp only: if_True)
qed

lemma to_size_t_int: "n < 2 ^ 64 \<Longrightarrow> to_size_t (int n) = n"
  by (simp add: to_size_t_def)

lemma overwrite_result: "snd (StreamSink_overwrite s pos bs) = length bs"
  by (simp add: StreamSink_overwrite_def StreamSink_write_def Let_def)

lemma overwrite_same_fail:
  "os_fail (fst (StreamSink_overwrite s pos bs)) = os_fail s \<Longrightarrow>
   ostream_tellp (fst (StreamSink_overwrite s pos bs)) = ostream_tellp s"
  by (auto simp: StreamSink_overwrite_def StreamSink_write_def ostream_write_def
      ostream_seekp_def ostream_tellp_def Let_def split: if_splits)


lemma overwrite_failed: "os_fail s \<Longrightarrow> StreamSink_overwrite s p bs = (s, length bs)"
  by (simp add: StreamSink_overwrite_def StreamSink_write_def ostream_write_def
      ostream_seekp_def Let_def)






lemma overwrite_in_room:
  assumes "\<not> os_fail s" "pos + length bs \<le> os_room s" "pos < 2 ^ 63"
  shows "StreamSink_overwrite s pos bs = (s\<lparr>os_bytes := store_at (os_bytes s) pos bs\<rparr>, length bs)"
proof (cases "bs = []")
  case True
  with assms show ?thesis
    by (simp add: StreamSink_overwrite_def StreamSink_write_def ostream_write_def
        ostream_seekp_def ostream_tellp_def to_streamoff_small store_at_def Let_def)
next
  case False
  with assms show ?thesis
    by (simp add: StreamSink_overwrite_def StreamSink_write_def ostream_write_def
        ostream_seekp_def ostream_tellp_def to_streamoff_small Let_def)
qed

section \<open>StreamSink: the append cursor, the frontier and refused writes\<close>




text \<open>
  Claim C5, as amended. \<open>StreamSink::overwrite\<close> checks no frontier: it returns the size
  it was asked to write for every stream, position and byte string; and on a good
  stream whose medium has room up to the end of the range, at a position that is a valid
  stream offset, the call is not refused and the bytes are stored at the position, the
  file growing when the range passes the highest position written.
\<close>

theorem overwrite_checks_no_frontier:
  "snd (StreamSink_overwrite s pos bs) = length bs
   \<and> (\<not> os_fail s \<and> pos + length bs \<le> os_room s \<and> pos < 2 ^ 63 \<longrightarrow>
        \<not> overwrite_refused s pos bs
        \<and> os_bytes (fst (StreamSink_overwrite s pos bs)) = store_at (os_bytes s) pos bs)"
  by (simp add: overwrite_result overwrite_in_room overwrite_refused_def)

text \<open>The amended claim at a stream of two bytes, overwritten at position 10.\<close>

theorem overwrite_checks_no_frontier_witness:
  "snd (StreamSink_overwrite
          \<lparr>os_bytes = [1, 2], os_put = 2, os_fail = False, os_room = 100\<rparr> 10 [7, 8]) = 2
   \<and> \<not> os_fail \<lparr>os_bytes = [1, 2], os_put = 2, os_fail = False, os_room = 100\<rparr>
   \<and> 10 + length [7, 8 :: uint8]
        \<le> os_room \<lparr>os_bytes = [1, 2], os_put = 2, os_fail = False, os_room = 100\<rparr>
   \<and> (10 :: nat) < 2 ^ 63
   \<and> \<not> overwrite_refused
          \<lparr>os_bytes = [1, 2], os_put = 2, os_fail = False, os_room = 100\<rparr> 10 [7, 8]
   \<and> os_bytes (fst (StreamSink_overwrite
          \<lparr>os_bytes = [1, 2], os_put = 2, os_fail = False, os_room = 100\<rparr> 10 [7, 8]))
       = store_at [1, 2] 10 [7, 8]"
  using overwrite_checks_no_frontier
    [of "\<lparr>os_bytes = [1, 2], os_put = 2, os_fail = False, os_room = 100\<rparr>" 10 "[7, 8]"]
  by simp

text \<open>
  Claim C5 as stated fails: two bytes have been written, the overwrite targets
  positions 10 and 11, and the call returns 2 on a stream that stays good, with the
  file grown to twelve bytes.
\<close>

theorem overwrite_past_frontier_accepted:
  "length (os_bytes \<lparr>os_bytes = [1, 2], os_put = 2, os_fail = False, os_room = 100\<rparr>)
     < 10 + length [7, 8 :: uint8]
   \<and> \<not> overwrite_refused
          \<lparr>os_bytes = [1, 2], os_put = 2, os_fail = False, os_room = 100\<rparr> 10 [7, 8]
   \<and> StreamSink_overwrite
        \<lparr>os_bytes = [1, 2], os_put = 2, os_fail = False, os_room = 100\<rparr> 10 [7, 8]
       = (\<lparr>os_bytes = [1, 2, 0, 0, 0, 0, 0, 0, 0, 0, 7, 8], os_put = 2, os_fail = False,
           os_room = 100\<rparr>, 2)"
proof -
  have r: "replicate 8 (0::uint8) = [0, 0, 0, 0, 0, 0, 0, 0]" by code_simp
  show ?thesis
    by (simp add: overwrite_refused_def overwrite_in_room store_at_def r)
qed

text \<open>
  Claim C6 at a medium with room for two bytes: \<open>write\<close> of five bytes stores two, the
  stream fails, and the call returns 5, the size it was asked to write.
\<close>

theorem write_refused_reports_size:
  "StreamSink_write \<lparr>os_bytes = [], os_put = 0, os_fail = False, os_room = 2\<rparr> [1, 2, 3, 4, 5]
     = (\<lparr>os_bytes = [1, 2], os_put = 2, os_fail = True, os_room = 2\<rparr>, 5)"
  by (simp add: StreamSink_write_def ostream_write_def store_at_def)

section \<open>Reader: a failed chain stays failed\<close>

lemma read_field_failed: "\<not> r_success r \<Longrightarrow> read_field r n = (r, None)"
  by (simp add: read_field_def)

lemma read_uint8_failed: "\<not> r_success r \<Longrightarrow> read_uint8 r d = (r, d)"
  by (simp add: read_uint8_def read_field_failed)

lemma read_uint8_bool_failed: "\<not> r_success r \<Longrightarrow> read_uint8_bool r d = (r, d)"
  by (simp add: read_uint8_bool_def read_field_failed)

lemma read_uint16_failed: "\<not> r_success r \<Longrightarrow> read_uint16 r d = (r, d)"
  by (simp add: read_uint16_def read_field_failed)

lemma read_uint32_failed: "\<not> r_success r \<Longrightarrow> read_uint32 r d = (r, d)"
  by (simp add: read_uint32_def read_field_failed)

lemma skip_failed: "\<not> r_success r \<Longrightarrow> skip r n = r"
  by (simp add: skip_def read_field_failed)

lemma read_range_failed: "\<not> r_success r \<Longrightarrow> read_range r ds = (r, ds)"
  by (induction ds) (simp_all add: read_uint32_failed)

lemma apply_op_failed: "\<not> r_success r \<Longrightarrow> apply_op r op = (r, op)"
  by (cases op)
    (simp_all add: read_uint8_failed read_uint8_bool_failed read_uint16_failed
      read_uint32_failed read_int32_def skip_failed read_range_failed)

lemma run_chain_failed: "\<not> r_success r \<Longrightarrow> run_chain r ops = (r, ops)"
  by (induction ops) (simp_all add: apply_op_failed)

lemma run_chain_append:
  "run_chain r (xs @ ys) =
     (let (r1, xs') = run_chain r xs; (r2, ys') = run_chain r1 ys in (r2, xs' @ ys'))"
  by (induction xs arbitrary: r) (simp_all add: Let_def split: prod.splits)

text \<open>
  Claim C3. In a chain \<open>ops1 @ ops2\<close> whose Reader has failed by the end of \<open>ops1\<close> (the
  failing operation is the last of \<open>ops1\<close> or an earlier one), the operations of \<open>ops2\<close>
  are no-ops: the chain returns the Reader as \<open>ops1\<close> left it, cursor included, the
  destinations of \<open>ops2\<close> hold what they held, and the chain reports failure.
\<close>

theorem chain_short_circuit:
  assumes "\<not> r_success (fst (run_chain r ops1))"
  shows "run_chain r (ops1 @ ops2) = (fst (run_chain r ops1), snd (run_chain r ops1) @ ops2)
         \<and> \<not> r_success (fst (run_chain r (ops1 @ ops2)))"
proof -
  obtain r1 xs where a: "run_chain r ops1 = (r1, xs)" by (cases "run_chain r ops1")
  with assms have f: "\<not> r_success r1" by simp
  have "run_chain r (ops1 @ ops2) = (r1, xs @ ops2)"
    by (simp add: run_chain_append a run_chain_failed [OF f])
  with a f show ?thesis by simp
qed

text \<open>
  The claim at a source of three bytes: the 16-bit read takes two, the 32-bit read
  fails, and the 8-bit read and the skip after it leave the third byte unread and the
  destination at 7.
\<close>

theorem chain_short_circuit_witness:
  "\<not> r_success (fst (run_chain (Reader_open [1, 2, 3]) [ReadU16 0, ReadU32 5]))
   \<and> run_chain (Reader_open [1, 2, 3]) ([ReadU16 0, ReadU32 5] @ [ReadU8 7, Skip 1])
      = (\<lparr>r_source = \<lparr>src_bytes = [1, 2, 3], src_cursor = 2\<rparr>, r_success = False\<rparr>,
         [ReadU16 0x0201, ReadU32 5, ReadU8 7, Skip 1])"
proof -
  have a: "run_chain (Reader_open [1, 2, 3]) [ReadU16 0, ReadU32 5]
      = (\<lparr>r_source = \<lparr>src_bytes = [1, 2, 3], src_cursor = 2\<rparr>, r_success = False\<rparr>,
         [ReadU16 0x0201, ReadU32 5])"
    by (simp add: Reader_open_def read_uint16_def read_uint32_def read_field_def
        Source_read_def slice_def le16_value_def)
  from a have f: "\<not> r_success (fst (run_chain (Reader_open [1, 2, 3]) [ReadU16 0, ReadU32 5]))"
    by simp
  from chain_short_circuit [OF f, of "[ReadU8 7, Skip 1]"] a f show ?thesis by simp
qed

section \<open>Reader primitives on an explicit Reader\<close>

lemma read_field_at:
  "read_field \<lparr>r_source = \<lparr>src_bytes = data, src_cursor = c\<rparr>, r_success = ok\<rparr> n =
     (if ok \<and> c + n \<le> length data
      then (\<lparr>r_source = \<lparr>src_bytes = data, src_cursor = c + n\<rparr>, r_success = True\<rparr>,
            Some (slice data c n))
      else (\<lparr>r_source = \<lparr>src_bytes = data, src_cursor = c\<rparr>, r_success = False\<rparr>, None))"
  by (simp add: read_field_def Source_read_def)

lemma read_uint8_at:
  "read_uint8 \<lparr>r_source = \<lparr>src_bytes = data, src_cursor = c\<rparr>, r_success = ok\<rparr> d =
     (if ok \<and> c + 1 \<le> length data
      then (\<lparr>r_source = \<lparr>src_bytes = data, src_cursor = c + 1\<rparr>, r_success = True\<rparr>, data ! c)
      else (\<lparr>r_source = \<lparr>src_bytes = data, src_cursor = c\<rparr>, r_success = False\<rparr>, d))"
  by (simp add: read_uint8_def read_field_at slice_def)

lemma read_uint8_bool_at:
  "read_uint8_bool \<lparr>r_source = \<lparr>src_bytes = data, src_cursor = c\<rparr>, r_success = ok\<rparr> d =
     (if ok \<and> c + 1 \<le> length data
      then (\<lparr>r_source = \<lparr>src_bytes = data, src_cursor = c + 1\<rparr>, r_success = True\<rparr>,
            data ! c \<noteq> 0)
      else (\<lparr>r_source = \<lparr>src_bytes = data, src_cursor = c\<rparr>, r_success = False\<rparr>, d))"
  by (simp add: read_uint8_bool_def read_field_at slice_def)

lemma read_uint16_at:
  "read_uint16 \<lparr>r_source = \<lparr>src_bytes = data, src_cursor = c\<rparr>, r_success = ok\<rparr> d =
     (if ok \<and> c + 2 \<le> length data
      then (\<lparr>r_source = \<lparr>src_bytes = data, src_cursor = c + 2\<rparr>, r_success = True\<rparr>,
            le16_value (slice data c 2))
      else (\<lparr>r_source = \<lparr>src_bytes = data, src_cursor = c\<rparr>, r_success = False\<rparr>, d))"
  by (simp add: read_uint16_def read_field_at)

lemma read_uint32_at:
  "read_uint32 \<lparr>r_source = \<lparr>src_bytes = data, src_cursor = c\<rparr>, r_success = ok\<rparr> d =
     (if ok \<and> c + 4 \<le> length data
      then (\<lparr>r_source = \<lparr>src_bytes = data, src_cursor = c + 4\<rparr>, r_success = True\<rparr>,
            field_at data c)
      else (\<lparr>r_source = \<lparr>src_bytes = data, src_cursor = c\<rparr>, r_success = False\<rparr>, d))"
  by (simp add: read_uint32_def read_field_at field_at_def)

lemma skip_at:
  "skip \<lparr>r_source = \<lparr>src_bytes = data, src_cursor = c\<rparr>, r_success = ok\<rparr> n =
     (if ok \<and> c + n \<le> length data
      then \<lparr>r_source = \<lparr>src_bytes = data, src_cursor = c + n\<rparr>, r_success = True\<rparr>
      else \<lparr>r_source = \<lparr>src_bytes = data, src_cursor = c\<rparr>, r_success = False\<rparr>)"
  by (simp add: skip_def read_field_at)

lemma read_range_at:
  "c + 4 * length ds \<le> length data \<Longrightarrow>
   read_range \<lparr>r_source = \<lparr>src_bytes = data, src_cursor = c\<rparr>, r_success = True\<rparr> ds =
     (\<lparr>r_source = \<lparr>src_bytes = data, src_cursor = c + 4 * length ds\<rparr>, r_success = True\<rparr>,
      map (\<lambda>i. field_at data (c + 4 * i)) [0..<length ds])"
proof (induction ds arbitrary: c)
  case Nil
  then show ?case by simp
next
  case (Cons d ds)
  then have a: "c + 4 \<le> length data" and b: "(c + 4) + 4 * length ds \<le> length data"
    by simp_all
  have m: "map (\<lambda>i. field_at data (c + 4 * i)) [0..<Suc (length ds)]
      = field_at data c # map (\<lambda>i. field_at data (c + 4 + 4 * i)) [0..<length ds]"
    by (simp add: upt_rec [of 0] map_Suc_upt [symmetric] add.assoc del: upt_Suc)
  from a show ?case
    by (simp add: read_uint32_at Cons.IH [OF b] m add.assoc del: upt_Suc)
qed

lemma read_range_short:
  "c \<le> length data \<Longrightarrow> \<not> c + 4 * length ds \<le> length data \<Longrightarrow>
   \<not> r_success (fst (read_range
        \<lparr>r_source = \<lparr>src_bytes = data, src_cursor = c\<rparr>, r_success = True\<rparr> ds))"
proof (induction ds arbitrary: c)
  case Nil
  then show ?case by simp
next
  case (Cons d ds)
  show ?case
  proof (cases "c + 4 \<le> length data")
    case True
    from Cons.prems have "\<not> (c + 4) + 4 * length ds \<le> length data" by simp
    from Cons.IH [OF True this] True show ?thesis
      by (simp add: read_uint32_at split_def Let_def)
  next
    case False
    then show ?thesis
      by (simp add: read_uint32_at read_range_failed split_def Let_def)
  qed
qed

lemma loadHeader_ok:
  assumes "c + 6 + 4 * length (mipmapOffsets header) + 4 * length (mipmapLengths header) \<le> length data"
  shows "loadHeader header \<lparr>r_source = \<lparr>src_bytes = data, src_cursor = c\<rparr>, r_success = True\<rparr> =
    (True,
     header\<lparr>compression := data ! c, hasMips := (data ! (c + 1) \<noteq> 0),
            width := le16_value (slice data (c + 2) 2),
            height := le16_value (slice data (c + 4) 2),
            mipmapOffsets := map (\<lambda>i. field_at data (c + 6 + 4 * i)) [0..<length (mipmapOffsets header)],
            mipmapLengths := map (\<lambda>i. field_at data (c + 6 + 4 * length (mipmapOffsets header) + 4 * i)) [0..<length (mipmapLengths header)]\<rparr>,
     \<lparr>r_source = \<lparr>src_bytes = data, src_cursor = c + 6 + 4 * length (mipmapOffsets header) + 4 * length (mipmapLengths header)\<rparr>, r_success = True\<rparr>)"
proof -
  let ?no = "length (mipmapOffsets header)" and ?nl = "length (mipmapLengths header)"
  from assms have a: "(c + 6) + 4 * ?no \<le> length data"
    and b: "(c + 6 + 4 * ?no) + 4 * ?nl \<le> length data"
    and c1: "c + 1 \<le> length data" and c2: "(c + 1) + 1 \<le> length data"
    and c3: "(c + 2) + 2 \<le> length data" and c4: "(c + 4) + 2 \<le> length data"
    by simp_all
  have 1: "read_uint8 \<lparr>r_source = \<lparr>src_bytes = data, src_cursor = c\<rparr>, r_success = True\<rparr> (compression header)
     = (\<lparr>r_source = \<lparr>src_bytes = data, src_cursor = c + 1\<rparr>, r_success = True\<rparr>, data ! c)"
    using c1 by (simp add: read_uint8_at)
  have 2: "read_uint8_bool \<lparr>r_source = \<lparr>src_bytes = data, src_cursor = c + 1\<rparr>, r_success = True\<rparr> (hasMips header)
     = (\<lparr>r_source = \<lparr>src_bytes = data, src_cursor = c + 2\<rparr>, r_success = True\<rparr>, data ! (c + 1) \<noteq> 0)"
    using c2 by (simp add: read_uint8_bool_at)
  have 3: "read_uint16 \<lparr>r_source = \<lparr>src_bytes = data, src_cursor = c + 2\<rparr>, r_success = True\<rparr> (width header)
     = (\<lparr>r_source = \<lparr>src_bytes = data, src_cursor = c + 4\<rparr>, r_success = True\<rparr>, le16_value (slice data (c + 2) 2))"
    using c3 by (simp add: read_uint16_at)
  have 4: "read_uint16 \<lparr>r_source = \<lparr>src_bytes = data, src_cursor = c + 4\<rparr>, r_success = True\<rparr> (height header)
     = (\<lparr>r_source = \<lparr>src_bytes = data, src_cursor = c + 6\<rparr>, r_success = True\<rparr>, le16_value (slice data (c + 4) 2))"
    using c4 by (simp add: read_uint16_at)
  show ?thesis
    unfolding loadHeader_def 1 2 3 4 read_range_at [OF a] read_range_at [OF b] Let_def split_conv
    by simp
qed

lemma loadHeader_short:
  assumes "c \<le> length data" "\<not> c + 6 + 4 * length (mipmapOffsets header) + 4 * length (mipmapLengths header) \<le> length data"
  shows "\<not> fst (loadHeader header \<lparr>r_source = \<lparr>src_bytes = data, src_cursor = c\<rparr>, r_success = True\<rparr>)"
proof -
  let ?no = "length (mipmapOffsets header)" and ?nl = "length (mipmapLengths header)"
  let ?R = "\<lambda>c ok. \<lparr>r_source = \<lparr>src_bytes = data, src_cursor = c\<rparr>, r_success = ok\<rparr>"
  have 1: "\<exists>c1 ok1 v. read_uint8 (?R c True) (compression header) = (?R c1 ok1, v) \<and> (ok1 \<longrightarrow> c1 = c + 1) \<and> c1 \<le> length data"
    using assms(1) by (auto simp add: read_uint8_at)
  then obtain c1 ok1 v1 where r1: "read_uint8 (?R c True) (compression header) = (?R c1 ok1, v1)"
    and k1: "ok1 \<longrightarrow> c1 = c + 1" and l1: "c1 \<le> length data" by blast
  have "\<exists>c2 ok2 v. read_uint8_bool (?R c1 ok1) (hasMips header) = (?R c2 ok2, v) \<and> (ok2 \<longrightarrow> ok1 \<and> c2 = c1 + 1) \<and> c2 \<le> length data"
    using l1 by (auto simp add: read_uint8_bool_at)
  then obtain c2 ok2 v2 where r2: "read_uint8_bool (?R c1 ok1) (hasMips header) = (?R c2 ok2, v2)"
    and k2: "ok2 \<longrightarrow> ok1 \<and> c2 = c1 + 1" and l2: "c2 \<le> length data" by blast
  have "\<exists>c3 ok3 v. read_uint16 (?R c2 ok2) (width header) = (?R c3 ok3, v) \<and> (ok3 \<longrightarrow> ok2 \<and> c3 = c2 + 2) \<and> c3 \<le> length data"
    using l2 by (auto simp add: read_uint16_at)
  then obtain c3 ok3 v3 where r3: "read_uint16 (?R c2 ok2) (width header) = (?R c3 ok3, v3)"
    and k3: "ok3 \<longrightarrow> ok2 \<and> c3 = c2 + 2" and l3: "c3 \<le> length data" by blast
  have "\<exists>c4 ok4 v. read_uint16 (?R c3 ok3) (height header) = (?R c4 ok4, v) \<and> (ok4 \<longrightarrow> ok3 \<and> c4 = c3 + 2) \<and> c4 \<le> length data"
    using l3 by (auto simp add: read_uint16_at)
  then obtain c4 ok4 v4 where r4: "read_uint16 (?R c3 ok3) (height header) = (?R c4 ok4, v4)"
    and k4: "ok4 \<longrightarrow> ok3 \<and> c4 = c3 + 2" and l4: "c4 \<le> length data" by blast
  have lh: "fst (loadHeader header (?R c True)) =
      r_success (fst (read_range (fst (read_range (?R c4 ok4) (mipmapOffsets header))) (mipmapLengths header)))"
    unfolding loadHeader_def r1 r2 r3 r4 Let_def split_conv by (simp add: split_def)
  show ?thesis
  proof (cases ok4)
    case False
    then show ?thesis unfolding lh by (simp add: read_range_failed)
  next
    case True
    with k1 k2 k3 k4 have c4: "c4 = c + 6" by simp
    show ?thesis
    proof (cases "c4 + 4 * ?no \<le> length data")
      case le: True
      from assms(2) c4 have "\<not> (c4 + 4 * ?no) + 4 * ?nl \<le> length data" by simp
      from read_range_short [OF le this] show ?thesis
        unfolding lh using True by (simp add: read_range_at [OF le])
    next
      case nle: False
      from read_range_short [OF l4 nle] show ?thesis
        unfolding lh using True by (simp add: read_range_failed)
    qed
  qed
qed

lemma loadHeader_failed:
  "\<not> r_success reader \<Longrightarrow> loadHeader header reader = (False, header, reader)"
  by (simp add: loadHeader_def read_uint8_failed read_uint8_bool_failed read_uint16_failed read_range_failed)

section \<open>The word manipulation of the bitmap parser\<close>

lemma m16: "(0xffff::uint32) = mask 16"
  by (simp add: mask_eq_exp_minus_1)

lemma swap_words_or: "swap_words v = drop_bit 16 v OR push_bit 16 v"
proof -
  have a: "(ucast (HIWORD v) :: uint32) = drop_bit 16 v"
    unfolding HIWORD_def m16 by (rule bit_word_eqI) (auto simp: bit_simps dest: bit_imp_le_length)
  have b: "push_bit 16 (ucast (LOWORD v) :: uint32) = push_bit 16 v"
    unfolding LOWORD_def m16 by (rule bit_word_eqI) (auto simp: bit_simps)
  have "drop_bit 16 v + push_bit 16 v = drop_bit 16 v OR push_bit 16 v"
    by (rule disjunctive_add) (auto simp: bit_simps dest: bit_imp_le_length)
  then show ?thesis by (simp add: swap_words_def a b)
qed

lemma swap_words_low: "(ucast (swap_words v) :: uint16) = HIWORD v"
  unfolding swap_words_or HIWORD_def m16
  by (rule bit_word_eqI) (auto simp: bit_simps dest: bit_imp_le_length)

lemma HIWORD_small: "v < 0x10000 \<Longrightarrow> HIWORD v = 0"
proof -
  assume "v < 0x10000"
  then have "unat v < 2 ^ 16" by (simp add: word_less_nat_alt)
  then have "drop_bit 16 v = 0"
    by (simp add: drop_bit_eq_div word_eq_iff_unsigned [where ?'a = nat] unat_div)
  then show ?thesis by (simp add: HIWORD_def)
qed

lemma swap_words_small: "v < 0x10000 \<Longrightarrow> swap_words v = push_bit 16 v"
proof -
  assume "v < 0x10000"
  then have "unat v < 2 ^ 16" by (simp add: word_less_nat_alt)
  then have "drop_bit 16 v = 0"
    by (simp add: drop_bit_eq_div word_eq_iff_unsigned [where ?'a = nat] unat_div)
  then show ?thesis by (simp add: swap_words_or)
qed

lemma low_zero_iff: "(ucast (v :: uint32) :: uint16) = 0 \<longleftrightarrow> take_bit 16 v = 0"
  by (auto simp: bit_eq_iff bit_simps)

lemma neg_low_zero:
  assumes "(ucast (v :: uint32) :: uint16) = 0"
  shows "(ucast (- v) :: uint16) = 0"
proof -
  from assms have z: "take_bit 16 v = 0" by (simp add: low_zero_iff)
  have "push_bit 16 (drop_bit 16 v) + take_bit 16 v = v" by (rule bits_ident)
  with z have v: "v = push_bit 16 (drop_bit 16 v)" by simp
  have "- v = push_bit 16 (- drop_bit 16 v)"
    by (subst v) (simp only: push_bit_minus)
  then have "take_bit 16 (- v) = 0"
    by (simp add: take_bit_push_bit)
  then show ?thesis by (simp add: low_zero_iff)
qed

lemma abs_low: "(ucast v :: uint16) = 0 \<Longrightarrow> (ucast (abs_int32 v) :: uint16) = 0"
  by (simp add: abs_int32_def neg_low_zero)

lemmas reads_at = read_uint8_at read_uint16_at read_uint32_at skip_at read_int32_def

section \<open>The bitmap parser on long and short inputs\<close>

lemma Parse_long:
  assumes "34 \<le> length data"
  shows "Parse data out =
     (if le16_value (slice data 0 2) \<noteq> 0x4D42 then Inr (False, out)
      else if field_at data 8 < 54 then Inr (False, out)
      else let out1 = out\<lparr>out_width := ucast (swap_words (field_at data 16)),
                      out_height := ucast (abs_int32 (swap_words (field_at data 20)))\<rparr>
      in if out_width out1 = 0 \<or> out_height out1 = 0 then Inr (False, out1)
      else if le16_value (slice data 28 2) \<noteq> 24 \<and> le16_value (slice data 28 2) \<noteq> 32 then Inr (False, out1)
      else if field_at data 30 = 0
         then (if reserve_throws (out_width out1) (out_height out1) then Inl length_error
               else
               let out2 = out1\<lparr>out_format := RGB\<rparr>;
                   (ok, reader, pixels) =
                      read_pixels (unat (out_width out2) * unat (out_height out2))
                        \<lparr>r_source =
                            (case Source_seek \<lparr>src_bytes = data, src_cursor = 34\<rparr> (unat (swap_words (field_at data 8))) of
                               None \<Rightarrow> \<lparr>src_bytes = data, src_cursor = 34\<rparr> | Some s \<Rightarrow> s),
                         r_success = True\<rparr>
                        (out_pixels out2)
               in Inr (ok, out2\<lparr>out_pixels := pixels\<rparr>))
         else Inr (True, out1))"
proof -
  from assms have l: "2 \<le> length data" "4 \<le> length data" "8 \<le> length data" "12 \<le> length data"
    "16 \<le> length data" "20 \<le> length data" "24 \<le> length data" "28 \<le> length data" "30 \<le> length data"
    by simp_all
  show ?thesis
    using assms l
    by (simp add: Parse_def Reader_open_def reads_at Let_def split: option.splits)
qed


lemma Parse_short: "length data < 34 \<Longrightarrow> \<exists>out'. Parse data out = Inr (False, out')"
  by (auto simp add: Parse_def Reader_open_def reads_at Let_def split: if_splits)

section \<open>loadHeader\<close>

text \<open>
  Claim C7. On a Reader whose cursor is within its source, \<open>loadHeader\<close> returns true
  exactly when the Reader had not failed and the source holds the 6 bytes of the four
  scalar fields and 4 bytes for every slot of the two arrays; then the header holds
  \<open>compression\<close> from the byte at the cursor, \<open>hasMips\<close> from the next byte, \<open>width\<close> and
  \<open>height\<close> from the two 2-byte fields after it, the offsets from the 4-byte fields that
  follow and the lengths from those after the offsets, and the cursor is past them. The
  result is the success flag of the chain of these six operations in this order. (The
  source spells the offsets array \<open>mimapOffsets\<close> in this function.)
\<close>

theorem loadHeader_decodes_in_order:
  assumes "c \<le> length data"
  shows
   "(fst (loadHeader header \<lparr>r_source = \<lparr>src_bytes = data, src_cursor = c\<rparr>, r_success = ok\<rparr>)
       = (ok \<and> c + 6 + 4 * length (mipmapOffsets header) + 4 * length (mipmapLengths header)
                \<le> length data))
    \<and> (fst (loadHeader header \<lparr>r_source = \<lparr>src_bytes = data, src_cursor = c\<rparr>, r_success = ok\<rparr>) \<longrightarrow>
         snd (loadHeader header \<lparr>r_source = \<lparr>src_bytes = data, src_cursor = c\<rparr>, r_success = ok\<rparr>)
         = (header\<lparr>compression := data ! c,
                   hasMips := (data ! (c + 1) \<noteq> 0),
                   width := le16_value (slice data (c + 2) 2),
                   height := le16_value (slice data (c + 4) 2),
                   mipmapOffsets :=
                     map (\<lambda>i. field_at data (c + 6 + 4 * i)) [0..<length (mipmapOffsets header)],
                   mipmapLengths :=
                     map (\<lambda>i. field_at data (c + 6 + 4 * length (mipmapOffsets header) + 4 * i))
                       [0..<length (mipmapLengths header)]\<rparr>,
            \<lparr>r_source = \<lparr>src_bytes = data,
                           src_cursor = c + 6 + 4 * length (mipmapOffsets header)
                                          + 4 * length (mipmapLengths header)\<rparr>,
             r_success = True\<rparr>))
    \<and> fst (loadHeader header \<lparr>r_source = \<lparr>src_bytes = data, src_cursor = c\<rparr>, r_success = ok\<rparr>)
       = r_success (fst (run_chain \<lparr>r_source = \<lparr>src_bytes = data, src_cursor = c\<rparr>, r_success = ok\<rparr>
           [ReadU8 (compression header), ReadBool (hasMips header), ReadU16 (width header),
            ReadU16 (height header), ReadRange (mipmapOffsets header),
            ReadRange (mipmapLengths header)]))"
proof -
  let ?R = "\<lparr>r_source = \<lparr>src_bytes = data, src_cursor = c\<rparr>, r_success = ok\<rparr>"
  let ?n = "c + 6 + 4 * length (mipmapOffsets header) + 4 * length (mipmapLengths header)"
  have chain: "fst (loadHeader header ?R)
       = r_success (fst (run_chain ?R
           [ReadU8 (compression header), ReadBool (hasMips header), ReadU16 (width header),
            ReadU16 (height header), ReadRange (mipmapOffsets header),
            ReadRange (mipmapLengths header)]))"
    by (simp add: loadHeader_def Let_def split_def)
  show ?thesis
  proof (cases ok)
    case False
    then show ?thesis using chain by (simp add: loadHeader_failed)
  next
    case True
    show ?thesis
    proof (cases "?n \<le> length data")
      case le: True
      from loadHeader_ok [OF le] True le chain show ?thesis by simp
    next
      case nle: False
      from loadHeader_short [OF assms nle] True nle chain show ?thesis by simp
    qed
  qed
qed

text \<open>The claim at a header with one slot in each array and a source of fourteen bytes.\<close>

theorem loadHeader_decodes_in_order_witness:
  "(0::nat) \<le> length [1, 1, 0, 1, 0, 2, 0x14, 0, 0, 0, 3, 0, 0, 0 :: uint8]
   \<and> loadHeader
        \<lparr>magic = 0, version = 0, compression = 0, hasMips = False, width = 0, height = 0,
          mipmapOffsets = [0], mipmapLengths = [0]\<rparr>
        \<lparr>r_source = \<lparr>src_bytes = [1, 1, 0, 1, 0, 2, 0x14, 0, 0, 0, 3, 0, 0, 0], src_cursor = 0\<rparr>,
          r_success = True\<rparr>
      = (True,
         \<lparr>magic = 0, version = 0, compression = 1, hasMips = True, width = 256, height = 512,
           mipmapOffsets = [20], mipmapLengths = [3]\<rparr>,
         \<lparr>r_source = \<lparr>src_bytes = [1, 1, 0, 1, 0, 2, 0x14, 0, 0, 0, 3, 0, 0, 0], src_cursor = 14\<rparr>,
           r_success = True\<rparr>)"
  using loadHeader_decodes_in_order [of 0 "[1, 1, 0, 1, 0, 2, 0x14, 0, 0, 0, 3, 0, 0, 0]"
      "\<lparr>magic = 0, version = 0, compression = 0, hasMips = False, width = 0, height = 0,
          mipmapOffsets = [0], mipmapLengths = [0]\<rparr>" True]
  by (simp add: prod_eq_iff field_at_def slice_def le32_value_def le16_value_def)

section \<open>Appending to a stream\<close>

lemma length_le16 [simp]: "length (le16_bytes v) = 2"
  by (simp add: le16_bytes_def)

lemma length_le32 [simp]: "length (le32_bytes v) = 4"
  by (simp add: le32_bytes_def)

lemma store_at_end: "store_at xs (length xs) bs = xs @ bs"
  by (simp add: store_at_def)

lemma store_at_inside:
  "length old = length bs \<Longrightarrow> store_at (pre @ old @ post) (length pre) bs = pre @ bs @ post"
  by (auto simp add: store_at_def)

lemma write_append:
  assumes "appendable s n" "length bs \<le> n"
  shows "StreamSink_write s bs = (s\<lparr>os_bytes := os_bytes s @ bs, os_put := length (os_bytes s) + length bs\<rparr>, length bs)"
    and "appendable (fst (StreamSink_write s bs)) (n - length bs)"
  using assms
  by (simp_all add: appendable_def StreamSink_write_def ostream_write_def store_at_end)

lemma position_appendable:
  assumes "appendable s n"
  shows "StreamSink_position s = length (os_bytes s)"
proof -
  from assms have p: "os_put s = length (os_bytes s)" and g: "\<not> os_fail s"
    and r: "length (os_bytes s) \<le> os_room s" "os_room s < 2 ^ 63"
    by (simp_all add: appendable_def)
  have "(2::nat) ^ 63 < 2 ^ 64" by (rule power_strict_increasing) simp_all
  with r have "length (os_bytes s) < 2 ^ 64" by linarith
  then show ?thesis
    using p g by (simp add: StreamSink_position_def ostream_tellp_def to_size_t_int)
qed


lemma appendable_mono: "appendable s n \<Longrightarrow> m \<le> n \<Longrightarrow> appendable s m"
  by (simp add: appendable_def)

lemma write_uint8_append:
  assumes "appendable s n" "1 \<le> n"
  shows "write_uint8 s v = s\<lparr>os_bytes := os_bytes s @ [v], os_put := length (os_bytes s) + 1\<rparr>"
  using write_append(1) [OF assms(1), of "[v]"] assms(2) by (simp add: write_uint8_def)

lemma write_uint16_append:
  assumes "appendable s n" "2 \<le> n"
  shows "write_uint16 s v = s\<lparr>os_bytes := os_bytes s @ le16_bytes v, os_put := length (os_bytes s) + 2\<rparr>"
  using write_append(1) [OF assms(1), of "le16_bytes v"] assms(2) by (simp add: write_uint16_def)

lemma write_uint32_append:
  assumes "appendable s n" "4 \<le> n"
  shows "write_uint32 s v = s\<lparr>os_bytes := os_bytes s @ le32_bytes v, os_put := length (os_bytes s) + 4\<rparr>"
  using write_append(1) [OF assms(1), of "le32_bytes v"] assms(2) by (simp add: write_uint32_def)

lemma appendable_grow:
  assumes "appendable s n" "length bs \<le> n"
  shows "appendable (s\<lparr>os_bytes := os_bytes s @ bs, os_put := length (os_bytes s) + length bs\<rparr>) (n - length bs)"
  using assms by (simp add: appendable_def)

lemma write_placeholders_append:
  "appendable s m \<Longrightarrow> 4 * n \<le> m \<Longrightarrow>
   write_placeholders s n =
     (s\<lparr>os_bytes := os_bytes s @ concat (replicate n (le32_bytes 0)),
        os_put := length (os_bytes s) + 4 * n\<rparr>,
      map (\<lambda>i. length (os_bytes s) + 4 * i) [0..<n])"
proof (induction n arbitrary: s m)
  case 0
  then show ?case by (simp add: appendable_def)
next
  case (Suc n)
  let ?s1 = "s\<lparr>os_bytes := os_bytes s @ le32_bytes 0, os_put := length (os_bytes s) + 4\<rparr>"
  from Suc.prems have four: "4 \<le> m" by simp
  have w: "write_uint32 s 0 = ?s1" by (rule write_uint32_append [OF Suc.prems(1) four])
  have a1: "appendable ?s1 (m - 4)"
    using appendable_grow [OF Suc.prems(1), of "le32_bytes 0"] four by simp
  from Suc.prems have r: "4 * n \<le> m - 4" by simp
  have m: "map (\<lambda>i. length (os_bytes s) + 4 * i) [0..<Suc n]
      = length (os_bytes s) # map (\<lambda>i. length (os_bytes s) + 4 + 4 * i) [0..<n]"
    by (simp add: upt_rec [of 0] map_Suc_upt [symmetric] add.assoc del: upt_Suc)
  show ?case
    unfolding write_placeholders.simps w Let_def position_appendable [OF Suc.prems(1)]
      Suc.IH [OF a1 r] split_conv m
    by (simp add: add.assoc)
qed


lemma grow_simps [simp]:
  "os_bytes (grow s bs) = os_bytes s @ bs"
  "os_put (grow s bs) = length (os_bytes s) + length bs"
  "os_fail (grow s bs) = os_fail s"
  "os_room (grow s bs) = os_room s"
  by (simp_all add: grow_def)

lemma grow_grow: "grow (grow s a) b = grow s (a @ b)"
  by (simp add: grow_def)

lemma grow_nil: "appendable s m \<Longrightarrow> grow s [] = s"
  by (simp add: grow_def appendable_def)

lemma appendable_grow': "appendable s m \<Longrightarrow> length bs \<le> m \<Longrightarrow> appendable (grow s bs) (m - length bs)"
  by (simp add: appendable_def grow_def)

lemma write_grow: "appendable s m \<Longrightarrow> length bs \<le> m \<Longrightarrow> StreamSink_write s bs = (grow s bs, length bs)"
  by (simp add: write_append(1) grow_def)

lemma write_uint8_grow: "appendable s m \<Longrightarrow> 1 \<le> m \<Longrightarrow> write_uint8 s v = grow s [v]"
  by (simp add: write_uint8_def write_grow)

lemma write_uint16_grow: "appendable s m \<Longrightarrow> 2 \<le> m \<Longrightarrow> write_uint16 s v = grow s (le16_bytes v)"
  by (simp add: write_uint16_def write_grow)

lemma write_uint32_grow: "appendable s m \<Longrightarrow> 4 \<le> m \<Longrightarrow> write_uint32 s v = grow s (le32_bytes v)"
  by (simp add: write_uint32_def write_grow)

lemma length_concat_le32 [simp]: "length (concat (map le32_bytes vs)) = 4 * length vs"
  by (induction vs) simp_all

lemma length_concat_replicate_le32 [simp]: "length (concat (replicate n (le32_bytes v))) = 4 * n"
  by (induction n) simp_all

lemma write_placeholders_grow:
  assumes "appendable s m" "4 * n \<le> m"
  shows "write_placeholders s n =
     (grow s (concat (replicate n (le32_bytes 0))), map (\<lambda>i. length (os_bytes s) + 4 * i) [0..<n])"
  using write_placeholders_append [OF assms] by (simp add: grow_def)

lemma HeaderSaver_open_fresh:
  assumes a: "appendable s m" and e: "os_bytes s = []"
    and r: "12 + 4 * length (mipmapOffsets h) + 4 * length (mipmapLengths h) \<le> m"
  shows "HeaderSaver_open s h =
     (\<lparr>offsetFields = map (\<lambda>i. 12 + 4 * i) [0..<length (mipmapOffsets h)],
       lengthFields = map (\<lambda>i. 12 + 4 * length (mipmapOffsets h) + 4 * i)
                        [0..<length (mipmapLengths h)]\<rparr>,
      grow s (placeholder_image h))"
proof -
  let ?no = "length (mipmapOffsets h)" and ?nl = "length (mipmapLengths h)"
  let ?b = "if hasMips h then 1 else 0 :: uint8"
  define s1 where "s1 = grow s (le16_bytes (magic h))"
  define s2 where "s2 = grow s1 (le32_bytes (version h))"
  define s3 where "s3 = grow s2 [compression h]"
  define s4 where "s4 = grow s3 [?b]"
  define s5 where "s5 = grow s4 (le16_bytes (width h))"
  define s6 where "s6 = grow s5 (le16_bytes (height h))"
  define s7 where "s7 = grow s6 (concat (replicate ?no (le32_bytes 0)))"
  define s8 where "s8 = grow s7 (concat (replicate ?nl (le32_bytes 0)))"
  have a1: "appendable s1 (m - 2)" unfolding s1_def using appendable_grow' [OF a, of "le16_bytes (magic h)"] r by simp
  have a2: "appendable s2 (m - 2 - 4)" unfolding s2_def using appendable_grow' [OF a1, of "le32_bytes (version h)"] r by simp
  have a3: "appendable s3 (m - 2 - 4 - 1)" unfolding s3_def using appendable_grow' [OF a2, of "[compression h]"] r by simp
  have a4: "appendable s4 (m - 2 - 4 - 1 - 1)" unfolding s4_def using appendable_grow' [OF a3, of "[?b]"] r by simp
  have a5: "appendable s5 (m - 2 - 4 - 1 - 1 - 2)" unfolding s5_def using appendable_grow' [OF a4, of "le16_bytes (width h)"] r by simp
  have a6: "appendable s6 (m - 2 - 4 - 1 - 1 - 2 - 2)" unfolding s6_def using appendable_grow' [OF a5, of "le16_bytes (height h)"] r by simp
  have a7: "appendable s7 (m - 2 - 4 - 1 - 1 - 2 - 2 - 4 * ?no)" unfolding s7_def
    using appendable_grow' [OF a6, of "concat (replicate ?no (le32_bytes 0))"] r by simp
  have w1: "write_uint16 s (magic h) = s1" unfolding s1_def using r by (intro write_uint16_grow [OF a]) simp
  have w2: "write_uint32 s1 (version h) = s2" unfolding s2_def using r by (intro write_uint32_grow [OF a1]) simp
  have w3: "write_uint8 s2 (compression h) = s3" unfolding s3_def using r by (intro write_uint8_grow [OF a2]) simp
  have w4: "write_uint8 s3 ?b = s4" unfolding s4_def using r by (intro write_uint8_grow [OF a3]) simp
  have w5: "write_uint16 s4 (width h) = s5" unfolding s5_def using r by (intro write_uint16_grow [OF a4]) simp
  have w6: "write_uint16 s5 (height h) = s6" unfolding s6_def using r by (intro write_uint16_grow [OF a5]) simp
  have l6: "length (os_bytes s6) = 12"
    by (simp add: s6_def s5_def s4_def s3_def s2_def s1_def e)
  have l7: "length (os_bytes s7) = 12 + 4 * ?no"
    by (simp add: s7_def l6)
  have w7: "write_placeholders s6 ?no = (s7, map (\<lambda>i. 12 + 4 * i) [0..<?no])"
    unfolding s7_def using r write_placeholders_grow [OF a6, of ?no] by (simp add: l6)
  have w8: "write_placeholders s7 ?nl = (s8, map (\<lambda>i. 12 + 4 * ?no + 4 * i) [0..<?nl])"
    unfolding s8_def using r write_placeholders_grow [OF a7, of ?nl] by (simp add: l7)
  have g: "s8 = grow s (placeholder_image h)"
    by (simp add: s8_def s7_def s6_def s5_def s4_def s3_def s2_def s1_def grow_grow placeholder_image_def)
  show ?thesis
    unfolding HeaderSaver_open_def w1 w2 w3 w4 w5 w6 w7 w8 Let_def split_conv g ..
qed

section \<open>Recording segments and patching fields\<close>

lemma seg_offsets_Cons:
  "seg_offsets base (seg # segs) = word_of_nat base # seg_offsets (base + length seg) segs"
  by (simp add: seg_offsets_def upt_rec [of 0] map_Suc_upt [symmetric] add.assoc del: upt_Suc)

lemma write_segments_grow:
  "appendable s m \<Longrightarrow> length (concat segs) \<le> m \<Longrightarrow>
   i + length segs \<le> length (mipmapOffsets h) \<Longrightarrow> i + length segs \<le> length (mipmapLengths h) \<Longrightarrow>
   write_segments s h i segs =
     (grow s (concat segs),
      h\<lparr>mipmapOffsets := take i (mipmapOffsets h) @ seg_offsets (length (os_bytes s)) segs
                            @ drop (i + length segs) (mipmapOffsets h),
        mipmapLengths := take i (mipmapLengths h) @ seg_lengths segs
                            @ drop (i + length segs) (mipmapLengths h)\<rparr>)"
proof (induction segs arbitrary: s m h i)
  case Nil
  then show ?case by (simp add: grow_nil seg_offsets_def seg_lengths_def)
next
  case (Cons seg segs)
  let ?w = "word_of_nat (length (os_bytes s)) :: uint32"
  let ?l = "word_of_nat (length seg) :: uint32"
  let ?h2 = "h\<lparr>mipmapOffsets := (mipmapOffsets h)[i := ?w], mipmapLengths := (mipmapLengths h)[i := ?l]\<rparr>"
  from Cons.prems have len: "length seg \<le> m" and rest: "length (concat segs) \<le> m - length seg"
    and io: "i < length (mipmapOffsets h)" and il: "i < length (mipmapLengths h)"
    and so: "Suc i + length segs \<le> length (mipmapOffsets ?h2)"
    and sl: "Suc i + length segs \<le> length (mipmapLengths ?h2)"
    by simp_all
  have w: "StreamSink_write s seg = (grow s seg, length seg)"
    by (rule write_grow [OF Cons.prems(1) len])
  have a1: "appendable (grow s seg) (m - length seg)"
    by (rule appendable_grow' [OF Cons.prems(1) len])
  have to: "take (Suc i) ((mipmapOffsets h)[i := ?w]) = take i (mipmapOffsets h) @ [?w]"
    using io by (simp add: take_Suc_conv_app_nth)
  have tl: "take (Suc i) ((mipmapLengths h)[i := ?l]) = take i (mipmapLengths h) @ [?l]"
    using il by (simp add: take_Suc_conv_app_nth)
  have step: "write_segments s h i (seg # segs) = write_segments (grow s seg) ?h2 (Suc i) segs"
    by (simp add: position_appendable [OF Cons.prems(1)] w Let_def)
  show ?case
    unfolding step Cons.IH [OF a1 rest so sl]
    by (simp add: grow_grow to tl seg_offsets_Cons seg_lengths_def)
qed

lemma patch_fields_inside:
  "\<not> os_fail s \<Longrightarrow> os_bytes s = pre @ concat (map le32_bytes olds) @ post \<Longrightarrow>
   length vs = length olds \<Longrightarrow> length (os_bytes s) \<le> os_room s \<Longrightarrow> os_room s < 2 ^ 63 \<Longrightarrow>
   patch_fields s (map (\<lambda>i. length pre + 4 * i) [0..<length vs]) vs
     = s\<lparr>os_bytes := pre @ concat (map le32_bytes vs) @ post\<rparr>"
proof (induction vs arbitrary: s pre olds)
  case Nil
  then show ?case by simp
next
  case (Cons v vs)
  then obtain old olds' where olds: "olds = old # olds'" by (cases olds) simp_all
  let ?rest = "concat (map le32_bytes olds') @ post"
  let ?s1 = "s\<lparr>os_bytes := (pre @ le32_bytes v) @ ?rest\<rparr>"
  from Cons.prems olds have b: "os_bytes s = pre @ le32_bytes old @ ?rest" by simp
  from Cons.prems b have room: "length pre + length (le32_bytes v) \<le> os_room s" by simp
  from room Cons.prems(5) have p63: "length pre < 2 ^ 63" by simp
  have ov: "StreamSink_overwrite s (length pre) (le32_bytes v) = (?s1, 4)"
    using overwrite_in_room [OF Cons.prems(1) room p63]
    by (simp add: b store_at_inside)
  have m: "map (\<lambda>i. length pre + 4 * i) [0..<length (v # vs)]
      = length pre # map (\<lambda>i. length (pre @ le32_bytes v) + 4 * i) [0..<length vs]"
    by (simp add: upt_rec [of 0] map_Suc_upt [symmetric] add.assoc del: upt_Suc)
  have f1: "\<not> os_fail ?s1" using Cons.prems(1) by simp
  have b1: "os_bytes ?s1 = (pre @ le32_bytes v) @ concat (map le32_bytes olds') @ post" by simp
  have l1: "length vs = length olds'" using Cons.prems(3) olds by simp
  have r1: "length (os_bytes ?s1) \<le> os_room ?s1" using Cons.prems(4) b by simp
  have r2: "os_room ?s1 < 2 ^ 63" using Cons.prems(5) by simp
  show ?case
    unfolding m patch_fields.simps ov fst_conv Cons.IH [OF f1 b1 l1 r1 r2]
    by simp
qed

lemma fresh_appendable: "fresh_stream s \<Longrightarrow> m \<le> os_room s \<Longrightarrow> appendable s m"
  by (simp add: fresh_stream_def appendable_def)

lemma placeholder_image_split:
  "placeholder_image h =
     (le16_bytes (magic h) @ le32_bytes (version h) @ [compression h]
       @ [if hasMips h then 1 else 0] @ le16_bytes (width h) @ le16_bytes (height h))
     @ concat (map le32_bytes (replicate (length (mipmapOffsets h)) 0))
     @ concat (map le32_bytes (replicate (length (mipmapLengths h)) 0))"
  by (simp add: placeholder_image_def)

lemma deferred_save_fresh:
  assumes f: "fresh_stream s"
    and no: "length (mipmapOffsets h) = n" and nl: "length (mipmapLengths h) = n"
    and k: "length segs \<le> n"
    and r: "header_size n + length (concat segs) \<le> os_room s"
  shows "deferred_save s h segs =
           (grow s (header_image (recorded n h segs) @ concat segs), recorded n h segs)"
proof -
  let ?m = "os_room s"
  let ?pre = "le16_bytes (magic h) @ le32_bytes (version h) @ [compression h]
       @ [if hasMips h then 1 else 0] @ le16_bytes (width h) @ le16_bytes (height h)"
  let ?z = "concat (map le32_bytes (replicate n 0))"
  let ?h2 = "recorded n h segs"
  have a: "appendable s ?m" by (rule fresh_appendable [OF f]) simp
  from f have e: "os_bytes s = []" by (simp add: fresh_stream_def)
  from f have r63: "os_room s < 2 ^ 63" by (simp add: fresh_stream_def)
  from f have good: "\<not> os_fail s" by (simp add: fresh_stream_def)
  have lp: "length (placeholder_image h) = header_size n"
    by (simp add: placeholder_image_def no nl header_size_def)
  have r1: "12 + 4 * length (mipmapOffsets h) + 4 * length (mipmapLengths h) \<le> ?m"
    using r by (simp add: no nl header_size_def)
  have op: "HeaderSaver_open s h =
     (\<lparr>offsetFields = map (\<lambda>i. 12 + 4 * i) [0..<n],
       lengthFields = map (\<lambda>i. 12 + 4 * n + 4 * i) [0..<n]\<rparr>,
      grow s (placeholder_image h))"
    using HeaderSaver_open_fresh [OF a e r1] by (simp add: no nl)
  let ?s1 = "grow s (placeholder_image h)"
  have a1: "appendable ?s1 (?m - header_size n)"
    using appendable_grow' [OF a, of "placeholder_image h"] r lp by simp
  have b1: "length (os_bytes ?s1) = header_size n" by (simp add: e lp)
  have c1: "length (concat segs) \<le> ?m - header_size n" using r by simp
  have ws: "write_segments ?s1 h 0 segs = (grow ?s1 (concat segs), ?h2)"
    using write_segments_grow [OF a1 c1, of 0 h] k
    by (simp add: no nl e lp recorded_def)
  let ?s2 = "grow ?s1 (concat segs)"
  have lo: "length (mipmapOffsets ?h2) = n"
    using k by (simp add: recorded_def seg_offsets_def no)
  have ll: "length (mipmapLengths ?h2) = n"
    using k by (simp add: recorded_def seg_lengths_def nl)
  have g2: "\<not> os_fail ?s2" using good by simp
  have bytes2: "os_bytes ?s2 = ?pre @ ?z @ (?z @ concat segs)"
    by (simp add: e placeholder_image_split no nl)
  have room2: "length (os_bytes ?s2) \<le> os_room ?s2"
    using r by (simp add: e lp)
  have r2: "os_room ?s2 < 2 ^ 63" using r63 by simp
  have lpre: "length ?pre = 12" by simp
  have p1: "patch_fields ?s2 (map (\<lambda>i. 12 + 4 * i) [0..<n]) (mipmapOffsets ?h2)
      = ?s2\<lparr>os_bytes := ?pre @ concat (map le32_bytes (mipmapOffsets ?h2)) @ (?z @ concat segs)\<rparr>"
    using patch_fields_inside [OF g2 bytes2, of "mipmapOffsets ?h2"] room2 r2 lo
    by (simp only: lpre length_replicate) 
  let ?s3 = "?s2\<lparr>os_bytes := ?pre @ concat (map le32_bytes (mipmapOffsets ?h2)) @ (?z @ concat segs)\<rparr>"
  let ?pre2 = "?pre @ concat (map le32_bytes (mipmapOffsets ?h2))"
  have g3: "\<not> os_fail ?s3" using good by simp
  have bytes3: "os_bytes ?s3 = ?pre2 @ ?z @ concat segs" by simp
  have room3: "length (os_bytes ?s3) \<le> os_room ?s3"
    using r by (simp add: lo header_size_def)
  have r3: "os_room ?s3 < 2 ^ 63" using r63 by simp
  have lpre2: "length ?pre2 = 12 + 4 * n" by (simp add: lo)
  have p2: "patch_fields ?s3 (map (\<lambda>i. 12 + 4 * n + 4 * i) [0..<n]) (mipmapLengths ?h2)
      = ?s3\<lparr>os_bytes := ?pre2 @ concat (map le32_bytes (mipmapLengths ?h2)) @ concat segs\<rparr>"
    using patch_fields_inside [OF g3 bytes3, of "mipmapLengths ?h2"] room3 r3 ll
    by (simp only: lpre2 length_replicate)
  have img: "?pre2 @ concat (map le32_bytes (mipmapLengths ?h2)) @ concat segs
      = header_image ?h2 @ concat segs"
    by (simp add: header_image_def recorded_def)
  have fin: "?s3\<lparr>os_bytes := ?pre2 @ concat (map le32_bytes (mipmapLengths ?h2)) @ concat segs\<rparr>
      = grow s (header_image ?h2 @ concat segs)"
    unfolding img
    by (simp add: grow_def e lp header_image_def lo ll placeholder_image_def no nl)
  show ?thesis
    unfolding deferred_save_def op split_conv Let_def ws HeaderSaver_finish_def
      HeaderSaver.simps p1 p2 fin ..
qed

section \<open>Reading the slots of the written file\<close>

lemma le16_roundtrip: "le16_value (le16_bytes v) = v"
  unfolding le16_value_def le16_bytes_def
  by (rule bit_word_eqI) (auto simp: bit_simps)

lemma le32_roundtrip: "le32_value (le32_bytes v) = v"
  unfolding le32_value_def le32_bytes_def
  apply (rule bit_word_eqI)
  subgoal for n
    by (cases "n < 8"; cases "n < 16"; cases "n < 24") (auto simp: bit_simps)
  done

lemma slice_append_right: "slice (xs @ ys) (length xs + p) n = slice ys p n"
  by (simp add: slice_def)

lemma slice_append_left: "p + n \<le> length xs \<Longrightarrow> slice (xs @ ys) p n = slice xs p n"
  by (simp add: slice_def)

lemma slice_all: "slice xs 0 (length xs) = xs"
  by (simp add: slice_def)

lemma slice_le32_list:
  "i < length vs \<Longrightarrow> slice (concat (map le32_bytes vs)) (4 * i) 4 = le32_bytes (vs ! i)"
proof (induction vs arbitrary: i)
  case Nil
  then show ?case by simp
next
  case (Cons v vs)
  show ?case
  proof (cases i)
    case 0
    then show ?thesis by (simp add: slice_def)
  next
    case (Suc j)
    with Cons.prems have j: "j < length vs" by simp
    have "slice (le32_bytes v @ concat (map le32_bytes vs)) (length (le32_bytes v) + 4 * j) 4
        = slice (concat (map le32_bytes vs)) (4 * j) 4"
      by (rule slice_append_right)
    with Cons.IH [OF j] Suc show ?thesis by simp
  qed
qed

lemma slice_segment:
  assumes "i < length segs"
  shows "slice (concat segs) (length (concat (take i segs))) (length (segs ! i)) = segs ! i"
proof -
  from assms have "segs = take i segs @ segs ! i # drop (Suc i) segs"
    by (rule id_take_nth_drop)
  then have "concat segs = concat (take i segs) @ segs ! i @ concat (drop (Suc i) segs)"
    by (metis concat.simps(2) concat_append)
  then show ?thesis by (simp add: slice_def)
qed

lemma header_image_length:
  "length (header_image h) = 12 + 4 * length (mipmapOffsets h) + 4 * length (mipmapLengths h)"
  by (simp add: header_image_def)

lemma header_image_offset_slot:
  assumes "i < length (mipmapOffsets h)"
  shows "slice (header_image h @ rest) (offset_slot i) 4 = le32_bytes (mipmapOffsets h ! i)"
proof -
  let ?pre = "le16_bytes (magic h) @ le32_bytes (version h) @ [compression h]
       @ [if hasMips h then 1 else 0] @ le16_bytes (width h) @ le16_bytes (height h)"
  let ?o = "concat (map le32_bytes (mipmapOffsets h))"
  let ?tail = "concat (map le32_bytes (mipmapLengths h)) @ rest"
  have lp: "length ?pre = 12" by simp
  have img: "header_image h @ rest = ?pre @ (?o @ ?tail)" by (simp add: header_image_def)
  have "slice (?pre @ (?o @ ?tail)) (length ?pre + 4 * i) 4 = slice (?o @ ?tail) (4 * i) 4"
    by (rule slice_append_right)
  also have "\<dots> = slice ?o (4 * i) 4"
    using assms by (intro slice_append_left) simp
  also have "\<dots> = le32_bytes (mipmapOffsets h ! i)" by (rule slice_le32_list [OF assms])
  finally show ?thesis unfolding img offset_slot_def lp .
qed

lemma header_image_length_slot:
  assumes "i < length (mipmapLengths h)" "length (mipmapOffsets h) = n"
  shows "slice (header_image h @ rest) (length_slot n i) 4 = le32_bytes (mipmapLengths h ! i)"
proof -
  let ?pre = "(le16_bytes (magic h) @ le32_bytes (version h) @ [compression h]
       @ [if hasMips h then 1 else 0] @ le16_bytes (width h) @ le16_bytes (height h))
       @ concat (map le32_bytes (mipmapOffsets h))"
  let ?l = "concat (map le32_bytes (mipmapLengths h))"
  have lp: "length ?pre = 12 + 4 * n" by (simp add: assms(2))
  have img: "header_image h @ rest = ?pre @ (?l @ rest)" by (simp add: header_image_def)
  have "slice (?pre @ (?l @ rest)) (length ?pre + 4 * i) 4 = slice (?l @ rest) (4 * i) 4"
    by (rule slice_append_right)
  also have "\<dots> = slice ?l (4 * i) 4"
    using assms by (intro slice_append_left) simp
  also have "\<dots> = le32_bytes (mipmapLengths h ! i)" by (rule slice_le32_list [OF assms(1)])
  finally show ?thesis unfolding img length_slot_def lp .
qed

lemma recorded_lengths:
  assumes "length (mipmapOffsets h) = n" "length (mipmapLengths h) = n" "length segs \<le> n"
  shows "length (mipmapOffsets (recorded n h segs)) = n"
    and "length (mipmapLengths (recorded n h segs)) = n"
  using assms by (simp_all add: recorded_def seg_offsets_def seg_lengths_def)

lemma recorded_nth:
  assumes "i < length segs"
  shows "mipmapOffsets (recorded n h segs) ! i = word_of_nat (segment_start n segs i)"
    and "mipmapLengths (recorded n h segs) ! i = word_of_nat (length (segs ! i))"
  using assms
  by (simp_all add: recorded_def seg_offsets_def seg_lengths_def nth_append segment_start_def)

lemma deferred_save_slots:
  assumes f: "fresh_stream s"
    and no: "length (mipmapOffsets h) = n" and nl: "length (mipmapLengths h) = n"
    and k: "length segs \<le> n"
    and r: "header_size n + length (concat segs) \<le> os_room s"
    and i: "i < length segs"
  shows "le32_value (slice (os_bytes (fst (deferred_save s h segs))) (offset_slot i) 4)
           = word_of_nat (segment_start n segs i)"
    and "le32_value (slice (os_bytes (fst (deferred_save s h segs))) (length_slot n i) 4)
           = word_of_nat (length (segs ! i))"
    and "slice (os_bytes (fst (deferred_save s h segs))) (segment_start n segs i)
           (length (segs ! i)) = segs ! i"
proof -
  let ?h2 = "recorded n h segs"
  from f have e: "os_bytes s = []" by (simp add: fresh_stream_def)
  have b: "os_bytes (fst (deferred_save s h segs)) = header_image ?h2 @ concat segs"
    by (simp add: deferred_save_fresh [OF f no nl k r] e)
  note rl = recorded_lengths [OF no nl k]
  from i k have io: "i < length (mipmapOffsets ?h2)" and il: "i < length (mipmapLengths ?h2)"
    by (simp_all add: rl)
  show "le32_value (slice (os_bytes (fst (deferred_save s h segs))) (offset_slot i) 4)
           = word_of_nat (segment_start n segs i)"
    unfolding b header_image_offset_slot [OF io] le32_roundtrip by (rule recorded_nth(1) [OF i])
  show "le32_value (slice (os_bytes (fst (deferred_save s h segs))) (length_slot n i) 4)
           = word_of_nat (length (segs ! i))"
    unfolding b header_image_length_slot [OF il rl(1)] le32_roundtrip by (rule recorded_nth(2) [OF i])
  have hl: "length (header_image ?h2) = header_size n"
    by (simp add: header_image_length rl header_size_def)
  have "slice (header_image ?h2 @ concat segs)
          (length (header_image ?h2) + length (concat (take i segs))) (length (segs ! i))
        = slice (concat segs) (length (concat (take i segs))) (length (segs ! i))"
    by (rule slice_append_right)
  then show "slice (os_bytes (fst (deferred_save s h segs))) (segment_start n segs i)
           (length (segs ! i)) = segs ! i"
    unfolding b segment_start_def hl by (simp only: slice_segment [OF i])
qed

lemma save_texture_deferred:
  "save_texture fmt w h pixelData dstFile = deferred_save dstFile (texture_header fmt w h) [pixelData]"
  by (simp add: save_texture_def deferred_save_def texture_header_def Let_def split_def)

lemma texture_header_slots:
  "length (mipmapOffsets (texture_header fmt w h)) = FixedMipCount fmt"
  "length (mipmapLengths (texture_header fmt w h)) = FixedMipCount fmt"
  by (simp_all add: texture_header_def Header_init_def Let_def split_def)

lemma concat_take_le: "length (concat (take i segs)) + length (segs ! i) \<le> length (concat segs)" if "i < length segs"
proof -
  from that have "segs = take i segs @ segs ! i # drop (Suc i) segs"
    by (rule id_take_nth_drop)
  then have "concat segs = concat (take i segs) @ segs ! i @ concat (drop (Suc i) segs)"
    by (metis concat.simps(2) concat_append)
  then have "length (concat segs) = length (concat (take i segs)) + length (segs ! i) + length (concat (drop (Suc i) segs))"
    by simp
  then show ?thesis by simp
qed

lemma unat_word_of_nat32: "x < 2 ^ 32 \<Longrightarrow> unat (word_of_nat x :: uint32) = x"
  by (simp add: unat_of_nat)

section \<open>The deferred-patch save\<close>

text \<open>
  Claim C1, as amended. On a freshly opened stream whose medium has room for the file,
  for a header with \<open>n\<close> slots in each array, at most \<open>n\<close> payload segments and a file
  that ends below \<open>2^32\<close>: after the header with placeholder fields, the segments and
  \<open>finish()\<close>, offset slot \<open>i\<close> of the file holds the position at which segment \<open>i\<close> begins,
  length slot \<open>i\<close> holds its byte count, and the bytes of the file at that position, that
  many, are the segment. For the one segment of \<open>main\<close> the position is the first byte after
  the header.
\<close>

theorem deferred_patch_fields_match:
  assumes "fresh_stream s"
    and "length (mipmapOffsets h) = n" and "length (mipmapLengths h) = n"
    and "length segs \<le> n"
    and "header_size n + length (concat segs) \<le> os_room s"
    and "header_size n + length (concat segs) < 2 ^ 32"
    and "i < length segs"
  shows "unat (le32_value (slice (os_bytes (fst (deferred_save s h segs))) (offset_slot i) 4))
           = segment_start n segs i
       \<and> unat (le32_value (slice (os_bytes (fst (deferred_save s h segs))) (length_slot n i) 4))
           = length (segs ! i)
       \<and> slice (os_bytes (fst (deferred_save s h segs))) (segment_start n segs i)
           (length (segs ! i)) = segs ! i"
proof -
  note sl = deferred_save_slots [OF assms(1-5) assms(7)]
  from concat_take_le [OF assms(7)] assms(6)
  have a: "segment_start n segs i < 2 ^ 32" and b: "length (segs ! i) < 2 ^ 32"
    by (simp_all add: segment_start_def)
  show ?thesis
    unfolding sl by (simp add: unat_word_of_nat32 [OF a] unat_word_of_nat32 [OF b])
qed

text \<open>
  The amended claim in \<open>main\<close> for a 256 by 256 image with one segment of 196608 bytes
  and sixteen slots: the offset is the header's size, the length 196608.
\<close>

theorem deferred_patch_fields_match_witness:
  "fresh_stream \<lparr>os_bytes = [], os_put = 0, os_fail = False, os_room = 1000000\<rparr>
   \<and> length [replicate 196608 (0::uint8)] \<le> 16
   \<and> header_size 16 + length (concat [replicate 196608 (0::uint8)]) \<le> 1000000
   \<and> unat (le32_value (slice (os_bytes (fst (save_texture
        \<lparr>FileMagic = 0x5448, Version_1_0 = 0x0100, FixedMipCount = 16\<rparr> 256 256
        (replicate 196608 0)
        \<lparr>os_bytes = [], os_put = 0, os_fail = False, os_room = 1000000\<rparr>))) (offset_slot 0) 4))
      = header_size 16
   \<and> unat (le32_value (slice (os_bytes (fst (save_texture
        \<lparr>FileMagic = 0x5448, Version_1_0 = 0x0100, FixedMipCount = 16\<rparr> 256 256
        (replicate 196608 0)
        \<lparr>os_bytes = [], os_put = 0, os_fail = False, os_room = 1000000\<rparr>))) (length_slot 16 0) 4))
      = 196608
   \<and> slice (os_bytes (fst (save_texture
        \<lparr>FileMagic = 0x5448, Version_1_0 = 0x0100, FixedMipCount = 16\<rparr> 256 256
        (replicate 196608 0)
        \<lparr>os_bytes = [], os_put = 0, os_fail = False, os_room = 1000000\<rparr>))) (header_size 16) 196608
      = replicate 196608 0"
proof -
  let ?s = "\<lparr>os_bytes = [], os_put = 0, os_fail = False, os_room = 1000000\<rparr>"
  let ?fmt = "\<lparr>FileMagic = 0x5448, Version_1_0 = 0x0100, FixedMipCount = 16\<rparr>"
  let ?h = "texture_header ?fmt 256 256"
  let ?segs = "[replicate 196608 (0::uint8)]"
  have f: "fresh_stream ?s" by (simp add: fresh_stream_def)
  have no: "length (mipmapOffsets ?h) = 16" and nl: "length (mipmapLengths ?h) = 16"
    by (simp_all add: texture_header_slots)
  have k: "length ?segs \<le> 16" by simp
  have r: "header_size 16 + length (concat ?segs) \<le> os_room ?s" by (simp add: header_size_def)
  have b: "header_size 16 + length (concat ?segs) < 2 ^ 32" by (simp add: header_size_def)
  have i: "0 < length ?segs" by simp
  from deferred_patch_fields_match [OF f no nl k r b i] f k r show ?thesis
    by (simp add: save_texture_deferred segment_start_def)
qed

text \<open>
  Claim C1 as stated fails for a segment of \<open>2^32\<close> bytes or more, since \<open>main\<close> stores the
  length as \<open>uint32\<close>: for a 37838 by 37838 image the segment has 4295142732 bytes and
  the length slot of the file holds 175436.
\<close>

theorem deferred_patch_length_wraps:
  "length (replicate 4295142732 (0::uint8)) = 4295142732
   \<and> unat (le32_value (slice (os_bytes (fst (save_texture
        \<lparr>FileMagic = 0x5448, Version_1_0 = 0x0100, FixedMipCount = 16\<rparr> 37838 37838
        (replicate 4295142732 0)
        \<lparr>os_bytes = [], os_put = 0, os_fail = False, os_room = 1099511627776\<rparr>)))
        (length_slot 16 0) 4))
      = 175436"
proof -
  let ?s = "\<lparr>os_bytes = [], os_put = 0, os_fail = False, os_room = 1099511627776\<rparr>"
  let ?fmt = "\<lparr>FileMagic = 0x5448, Version_1_0 = 0x0100, FixedMipCount = 16\<rparr>"
  let ?h = "texture_header ?fmt 37838 37838"
  let ?segs = "[replicate 4295142732 (0::uint8)]"
  have f: "fresh_stream ?s" by (simp add: fresh_stream_def)
  have no: "length (mipmapOffsets ?h) = 16" and nl: "length (mipmapLengths ?h) = 16"
    by (simp_all add: texture_header_slots)
  have k: "length ?segs \<le> 16" by simp
  have r: "header_size 16 + length (concat ?segs) \<le> os_room ?s" by (simp add: header_size_def)
  have i: "0 < length ?segs" by simp
  have w: "unat (word_of_nat 4295142732 :: uint32) = 175436" by (simp add: unat_of_nat)
  from deferred_save_slots(2) [OF f no nl k r i] w show ?thesis
    by (simp add: save_texture_deferred)
qed

section \<open>Loading what was saved\<close>

lemma header_image_explicit:
  "header_image h @ rest =
     [ucast (magic h), ucast (drop_bit 8 (magic h)),
      ucast (version h), ucast (drop_bit 8 (version h)), ucast (drop_bit 16 (version h)),
      ucast (drop_bit 24 (version h)),
      compression h, if hasMips h then 1 else 0,
      ucast (width h), ucast (drop_bit 8 (width h)),
      ucast (height h), ucast (drop_bit 8 (height h))]
     @ concat (map le32_bytes (mipmapOffsets h)) @ concat (map le32_bytes (mipmapLengths h)) @ rest"
  by (simp add: header_image_def le16_bytes_def le32_bytes_def)

lemma header_image_scalars:
  "le16_value (slice (header_image h @ rest) 0 2) = magic h"
  "field_at (header_image h @ rest) 2 = version h"
  "(header_image h @ rest) ! 6 = compression h"
  "((header_image h @ rest) ! 7 \<noteq> 0) = hasMips h"
  "le16_value (slice (header_image h @ rest) 8 2) = width h"
  "le16_value (slice (header_image h @ rest) 10 2) = height h"
  unfolding header_image_explicit field_at_def
  by (simp_all add: slice_def le16_roundtrip [unfolded le16_bytes_def]
      le32_roundtrip [unfolded le32_bytes_def])

lemma header_image_offsets:
  "map (\<lambda>i. field_at (header_image h @ rest) (12 + 4 * i)) [0..<length (mipmapOffsets h)]
     = mipmapOffsets h"
proof -
  have "map (\<lambda>i. field_at (header_image h @ rest) (12 + 4 * i)) [0..<length (mipmapOffsets h)]
      = map (\<lambda>i. mipmapOffsets h ! i) [0..<length (mipmapOffsets h)]"
    by (rule map_cong)
      (simp_all add: field_at_def header_image_offset_slot [unfolded offset_slot_def] le32_roundtrip)
  then show ?thesis by (simp add: map_nth)
qed

lemma header_image_lengths:
  assumes "length (mipmapOffsets h) = n"
  shows "map (\<lambda>i. field_at (header_image h @ rest) (12 + 4 * n + 4 * i)) [0..<length (mipmapLengths h)]
     = mipmapLengths h"
proof -
  have "map (\<lambda>i. field_at (header_image h @ rest) (12 + 4 * n + 4 * i)) [0..<length (mipmapLengths h)]
      = map (\<lambda>i. mipmapLengths h ! i) [0..<length (mipmapLengths h)]"
    by (rule map_cong)
      (simp_all add: field_at_def header_image_length_slot [OF _ assms, unfolded length_slot_def]
        le32_roundtrip)
  then show ?thesis by (simp add: map_nth)
qed

lemma main_info_header_image:
  assumes m: "magic h = FileMagic fmt" and v: "version h = Version_1_0 fmt"
    and no: "length (mipmapOffsets h) = FixedMipCount fmt"
    and nl: "length (mipmapLengths h) = FixedMipCount fmt"
  shows "main_info fmt (header_image h @ rest) = (0, Some h)"
proof -
  let ?d = "header_image h @ rest"
  let ?n = "FixedMipCount fmt"
  let ?h0 = "Header_init fmt (Version_1_0 fmt)"
  have len: "length ?d = 12 + 4 * ?n + 4 * ?n + length rest"
    by (simp add: header_image_length no nl)
  have r1: "read_uint16 \<lparr>r_source = \<lparr>src_bytes = ?d, src_cursor = 0\<rparr>, r_success = True\<rparr> 0
      = (\<lparr>r_source = \<lparr>src_bytes = ?d, src_cursor = 2\<rparr>, r_success = True\<rparr>, FileMagic fmt)"
    using len by (simp add: read_uint16_at header_image_scalars m)
  have r2: "read_uint32 \<lparr>r_source = \<lparr>src_bytes = ?d, src_cursor = 2\<rparr>, r_success = True\<rparr> 0
      = (\<lparr>r_source = \<lparr>src_bytes = ?d, src_cursor = 6\<rparr>, r_success = True\<rparr>, Version_1_0 fmt)"
    using len by (simp add: read_uint32_at header_image_scalars v)
  have pre: "loadPreHeader fmt \<lparr>magic = 0, version = 0\<rparr> (Reader_open ?d)
      = (True, \<lparr>magic = FileMagic fmt, version = Version_1_0 fmt\<rparr>,
         \<lparr>r_source = \<lparr>src_bytes = ?d, src_cursor = 6\<rparr>, r_success = True\<rparr>)"
    unfolding loadPreHeader_def Reader_open_def PreHeader.simps r1 split_conv Let_def r2
    by simp
  have l0: "length (mipmapOffsets ?h0) = ?n" "length (mipmapLengths ?h0) = ?n"
    by (simp_all add: Header_init_def)
  have enough: "6 + 6 + 4 * length (mipmapOffsets ?h0) + 4 * length (mipmapLengths ?h0) \<le> length ?d"
    using len by (simp add: l0 del: length_append)
  have ld: "loadHeader ?h0 \<lparr>r_source = \<lparr>src_bytes = ?d, src_cursor = 6\<rparr>, r_success = True\<rparr>
      = (True, h,
         \<lparr>r_source = \<lparr>src_bytes = ?d, src_cursor = 6 + 6 + 4 * ?n + 4 * ?n\<rparr>, r_success = True\<rparr>)"
    unfolding loadHeader_ok [OF enough] l0
    using header_image_offsets [of h rest] header_image_lengths [OF no, of rest]
    by (simp add: header_image_scalars no nl Header_init_def m v)
  show ?thesis
    unfolding main_info_def Let_def pre split_conv
    by (simp add: ld)
qed



section \<open>BmpImageParser::Parse\<close>

lemma ucast_neg_low: "(ucast (- v :: uint32) :: uint16) = - ucast v"
proof -
  have d: "is_down (ucast :: uint32 \<Rightarrow> uint16)" by (simp add: is_down)
  have "- v = word_of_int (- uint v)" by simp
  then have "(ucast (- v) :: uint16) = ucast (word_of_int (- uint v) :: uint32)" by simp
  also have "\<dots> = word_of_int (- uint v)" by (rule ucast_down_wi [OF d])
  also have "\<dots> = - word_of_int (uint v)" by (simp only: wi_hom_neg)
  also have "\<dots> = - (ucast v :: uint16)" by (simp only: ucast_eq)
  finally show ?thesis .
qed

lemma abs_swap_low:
  "(ucast (abs_int32 (swap_words v)) :: uint16)
     = (if sint (swap_words v) < 0 then - HIWORD v else HIWORD v)"
  by (simp add: abs_int32_def ucast_neg_low swap_words_low)

lemma Parse_small_field:
  assumes "field_at data 16 < 0x10000 \<or> field_at data 20 < 0x10000"
  shows "\<exists>out'. Parse data out = Inr (False, out')"
proof (cases "length data < 34")
  case True
  then show ?thesis by (rule Parse_short)
next
  case False
  then have l: "34 \<le> length data" by simp
  have w: "field_at data 16 < 0x10000 \<Longrightarrow> (ucast (swap_words (field_at data 16)) :: uint16) = 0"
    by (simp add: swap_words_low HIWORD_small)
  have h: "field_at data 20 < 0x10000 \<Longrightarrow> (ucast (abs_int32 (swap_words (field_at data 20))) :: uint16) = 0"
    by (rule abs_low) (simp add: swap_words_low HIWORD_small)
  from assms w h show ?thesis
    unfolding Parse_long [OF l] by (auto simp: Let_def)
qed

lemma Parse_sizes:
  assumes "34 \<le> length data" "le16_value (slice data 0 2) = 0x4D42" "\<not> field_at data 8 < 54"
    and "Parse data out = Inr (ok, out')"
  shows "out_width out' = ucast (swap_words (field_at data 16))"
    and "out_height out' = ucast (abs_int32 (swap_words (field_at data 20)))"
  using assms(2-) unfolding Parse_long [OF assms(1)]
  by (auto simp: Let_def split: if_splits prod.splits)

lemma bmp_small_rejected:
  "Parse [0x42, 0x4D, 0, 0, 0, 0, 0, 0, 54, 0, 0, 0, 0, 0, 0, 0, 2, 0, 0, 0, 2, 0, 0, 0,
             0, 0, 0, 0, 24, 0, 1, 0, 0, 0]
         \<lparr>out_width = 0, out_height = 0, out_format = RGBA, out_pixels = []\<rparr>
       = Inr (False, \<lparr>out_width = 0, out_height = 0, out_format = RGBA, out_pixels = []\<rparr>)"
proof -
  let ?d = "[0x42, 0x4D, 0, 0, 0, 0, 0, 0, 54, 0, 0, 0, 0, 0, 0, 0, 2, 0, 0, 0, 2, 0, 0, 0,
             0, 0, 0, 0, 24, 0, 1, 0, 0, 0] :: uint8 list"
  have f8: "field_at ?d 8 = 54" by (simp add: field_at_def slice_def le32_value_def)
  have f16: "field_at ?d 16 = 2" by (simp add: field_at_def slice_def le32_value_def)
  have f20: "field_at ?d 20 = 2" by (simp add: field_at_def slice_def le32_value_def)
  have f30: "field_at ?d 30 = 1" by (simp add: field_at_def slice_def le32_value_def)
  have m: "le16_value (slice ?d 0 2) = 0x4D42" by (simp add: slice_def le16_value_def)
  have b: "le16_value (slice ?d 28 2) = 24" by (simp add: slice_def le16_value_def)
  have sw: "swap_words 2 = 131072" by (simp add: swap_words_def HIWORD_def LOWORD_def)
  show ?thesis
    by (subst Parse_long) (simp_all add: f8 f16 f20 f30 m b sw abs_int32_def)
qed

text \<open>
  Claim C9, as amended. The word manipulation exchanges the two 16-bit halves of the
  field. From the exchanged width the parser takes the low 16 bits, which are the high
  half of the value it read; from the exchanged height it takes the low 16 bits of the
  absolute value, which are the high half of the value it read when the exchanged value
  is not negative as an \<open>int32\<close>, and the negation of that half modulo \<open>2^16\<close> when it
  is negative. These are the width and the height of every result of \<open>Parse\<close> on an
  input of at least 34 bytes that passes the checks of the magic and the pixel offset.
  So the manipulation matters below \<open>2^16\<close> too: for \<open>v < 2^16\<close> the result is
  \<open>v * 2^16\<close>, its \<open>uint16\<close> truncation is 0 with and without \<open>std::abs\<close>, and \<open>Parse\<close>
  returns false on every input whose width or height field, as read at positions 16 and
  20, is below \<open>2^16\<close>.
\<close>

theorem word_swap_takes_high_half:
  "ucast (swap_words v) = HIWORD v
   \<and> ucast (abs_int32 (swap_words v))
       = (if sint (swap_words v) < 0 then - HIWORD v else HIWORD v)
   \<and> (v < 0x10000 \<longrightarrow>
        swap_words v = push_bit 16 v \<and> (ucast (swap_words v) :: uint16) = 0
        \<and> (ucast (abs_int32 (swap_words v)) :: uint16) = 0)
   \<and> (34 \<le> length data \<and> le16_value (slice data 0 2) = 0x4D42 \<and> \<not> field_at data 8 < 54
        \<and> Parse data out = Inr (ok, out') \<longrightarrow>
        out_width out' = HIWORD (field_at data 16)
        \<and> out_height out'
            = (if sint (swap_words (field_at data 20)) < 0 then - HIWORD (field_at data 20)
               else HIWORD (field_at data 20)))
   \<and> (field_at data 16 < 0x10000 \<or> field_at data 20 < 0x10000 \<longrightarrow>
        (\<exists>out'. Parse data out = Inr (False, out')))"
proof (intro conjI impI)
  show "ucast (swap_words v) = HIWORD v" by (rule swap_words_low)
next
  show "ucast (abs_int32 (swap_words v))
       = (if sint (swap_words v) < 0 then - HIWORD v else HIWORD v)"
    by (rule abs_swap_low)
next
  assume "v < 0x10000"
  then show "swap_words v = push_bit 16 v" by (rule swap_words_small)
next
  assume "v < 0x10000"
  then show "(ucast (swap_words v) :: uint16) = 0" by (simp only: swap_words_low HIWORD_small)
next
  assume "v < 0x10000"
  then have "(ucast (swap_words v) :: uint16) = 0" by (simp only: swap_words_low HIWORD_small)
  then show "(ucast (abs_int32 (swap_words v)) :: uint16) = 0" by (rule abs_low)
next
  assume a: "34 \<le> length data \<and> le16_value (slice data 0 2) = 0x4D42 \<and> \<not> field_at data 8 < 54
        \<and> Parse data out = Inr (ok, out')"
  then have l: "34 \<le> length data" and m: "le16_value (slice data 0 2) = 0x4D42"
    and f: "\<not> field_at data 8 < 54" and p: "Parse data out = Inr (ok, out')" by simp_all
  show "out_width out' = HIWORD (field_at data 16)"
    using Parse_sizes(1) [OF l m f p] by (simp only: swap_words_low)
  show "out_height out'
            = (if sint (swap_words (field_at data 20)) < 0 then - HIWORD (field_at data 20)
               else HIWORD (field_at data 20))"
    using Parse_sizes(2) [OF l m f p] by (simp only: abs_swap_low)
next
  assume "field_at data 16 < 0x10000 \<or> field_at data 20 < 0x10000"
  then show "\<exists>out'. Parse data out = Inr (False, out')" by (rule Parse_small_field)
qed

text \<open>
  The amended claim at \<open>v = 2\<close>, at an input of 34 bytes whose pixel offset, width and
  height read 54, 2 and 2, and at \<open>v = 0xFFFEFFFF\<close>, whose halves exchanged are negative
  as an \<open>int32\<close>: the high half is 65534 and the height taken is 2.
\<close>

theorem word_swap_takes_high_half_witness:
  "(ucast (swap_words 2) :: uint16) = HIWORD 2
   \<and> (2 :: uint32) < 0x10000 \<and> swap_words 2 = push_bit 16 2 \<and> (ucast (swap_words 2) :: uint16) = 0
   \<and> (ucast (abs_int32 (swap_words 2)) :: uint16) = 0
   \<and> 34 \<le> length [0x42, 0x4D, 0, 0, 0, 0, 0, 0, 54, 0, 0, 0, 0, 0, 0, 0, 2, 0, 0, 0, 2, 0, 0, 0,
                0, 0, 0, 0, 24, 0, 1, 0, 0, 0 :: uint8]
   \<and> \<not> field_at [0x42, 0x4D, 0, 0, 0, 0, 0, 0, 54, 0, 0, 0, 0, 0, 0, 0, 2, 0, 0, 0, 2, 0, 0, 0,
                0, 0, 0, 0, 24, 0, 1, 0, 0, 0] 8 < 54
   \<and> field_at [0x42, 0x4D, 0, 0, 0, 0, 0, 0, 54, 0, 0, 0, 0, 0, 0, 0, 2, 0, 0, 0, 2, 0, 0, 0,
                0, 0, 0, 0, 24, 0, 1, 0, 0, 0] 16 < 0x10000
   \<and> Parse [0x42, 0x4D, 0, 0, 0, 0, 0, 0, 54, 0, 0, 0, 0, 0, 0, 0, 2, 0, 0, 0, 2, 0, 0, 0,
                0, 0, 0, 0, 24, 0, 1, 0, 0, 0]
              \<lparr>out_width = 0, out_height = 0, out_format = RGBA, out_pixels = []\<rparr>
       = Inr (False, \<lparr>out_width = 0, out_height = 0, out_format = RGBA, out_pixels = []\<rparr>)
   \<and> HIWORD (field_at [0x42, 0x4D, 0, 0, 0, 0, 0, 0, 54, 0, 0, 0, 0, 0, 0, 0, 2, 0, 0, 0, 2, 0, 0, 0,
                0, 0, 0, 0, 24, 0, 1, 0, 0, 0] 16) = 0
   \<and> sint (swap_words 0xFFFEFFFF) < 0 \<and> HIWORD 0xFFFEFFFF = 65534
   \<and> (ucast (abs_int32 (swap_words 0xFFFEFFFF)) :: uint16) = 2"
proof -
  let ?d = "[0x42, 0x4D, 0, 0, 0, 0, 0, 0, 54, 0, 0, 0, 0, 0, 0, 0, 2, 0, 0, 0, 2, 0, 0, 0,
             0, 0, 0, 0, 24, 0, 1, 0, 0, 0] :: uint8 list"
  let ?o = "\<lparr>out_width = 0, out_height = 0, out_format = RGBA, out_pixels = []\<rparr>"
  have f8: "\<not> field_at ?d 8 < 54" by (simp add: field_at_def slice_def le32_value_def)
  have f: "field_at ?d 16 < 0x10000"
    by (simp add: field_at_def slice_def le32_value_def)
  have m: "le16_value (slice ?d 0 2) = 0x4D42" by (simp add: slice_def le16_value_def)
  have l: "34 \<le> length ?d" by simp
  have s: "(2 :: uint32) < 0x10000" by simp
  from word_swap_takes_high_half [of 2 ?d ?o False ?o] f s f8 m l bmp_small_rejected
  have "(ucast (swap_words 2) :: uint16) = HIWORD 2"
    and "swap_words 2 = push_bit 16 2" and "(ucast (swap_words 2) :: uint16) = 0"
    and "(ucast (abs_int32 (swap_words 2)) :: uint16) = 0"
    and "out_width ?o = HIWORD (field_at ?d 16)"
    by blast+
  note small = this
  have sw: "swap_words 0xFFFEFFFF = 0xFFFFFFFE"
    by (simp add: swap_words_def HIWORD_def LOWORD_def)
  have hi: "HIWORD 0xFFFEFFFF = 65534" by (simp add: HIWORD_def)
  have n: "sint (0xFFFFFFFE :: uint32) < 0" by simp
  from word_swap_takes_high_half [of "0xFFFEFFFF" ?d ?o False ?o]
  have "(ucast (abs_int32 (swap_words 0xFFFEFFFF)) :: uint16)
       = (if sint (swap_words 0xFFFEFFFF) < 0 then - HIWORD 0xFFFEFFFF else HIWORD 0xFFFEFFFF)"
    by blast
  with sw hi n have neg: "sint (swap_words 0xFFFEFFFF) < 0 \<and> HIWORD 0xFFFEFFFF = 65534
       \<and> (ucast (abs_int32 (swap_words 0xFFFEFFFF)) :: uint16) = 2"
    by simp
  from small f s f8 l bmp_small_rejected neg show ?thesis by simp
qed

text \<open>
  Claim C9 as stated fails: in this input the pixel offset, the width and the height
  read 54, 2 and 2, all below \<open>2^16\<close>; the parser returns false with width and height 0,
  while the parser that uses the three values unchanged returns true with a 2 by 2
  image.
\<close>

theorem word_swap_changes_small_fields:
  "field_at [0x42, 0x4D, 0, 0, 0, 0, 0, 0, 54, 0, 0, 0, 0, 0, 0, 0, 2, 0, 0, 0, 2, 0, 0, 0,
             0, 0, 0, 0, 24, 0, 1, 0, 0, 0] 8 < 0x10000
   \<and> field_at [0x42, 0x4D, 0, 0, 0, 0, 0, 0, 54, 0, 0, 0, 0, 0, 0, 0, 2, 0, 0, 0, 2, 0, 0, 0,
             0, 0, 0, 0, 24, 0, 1, 0, 0, 0] 16 < 0x10000
   \<and> field_at [0x42, 0x4D, 0, 0, 0, 0, 0, 0, 54, 0, 0, 0, 0, 0, 0, 0, 2, 0, 0, 0, 2, 0, 0, 0,
             0, 0, 0, 0, 24, 0, 1, 0, 0, 0] 20 < 0x10000
   \<and> Parse [0x42, 0x4D, 0, 0, 0, 0, 0, 0, 54, 0, 0, 0, 0, 0, 0, 0, 2, 0, 0, 0, 2, 0, 0, 0,
             0, 0, 0, 0, 24, 0, 1, 0, 0, 0]
         \<lparr>out_width = 0, out_height = 0, out_format = RGBA, out_pixels = []\<rparr>
       = Inr (False, \<lparr>out_width = 0, out_height = 0, out_format = RGBA, out_pixels = []\<rparr>)
   \<and> Parse_unswapped [0x42, 0x4D, 0, 0, 0, 0, 0, 0, 54, 0, 0, 0, 0, 0, 0, 0, 2, 0, 0, 0, 2, 0, 0, 0,
             0, 0, 0, 0, 24, 0, 1, 0, 0, 0]
         \<lparr>out_width = 0, out_height = 0, out_format = RGBA, out_pixels = []\<rparr>
       = Inr (True, \<lparr>out_width = 2, out_height = 2, out_format = RGBA, out_pixels = []\<rparr>)"
proof -
  let ?d = "[0x42, 0x4D, 0, 0, 0, 0, 0, 0, 54, 0, 0, 0, 0, 0, 0, 0, 2, 0, 0, 0, 2, 0, 0, 0,
             0, 0, 0, 0, 24, 0, 1, 0, 0, 0] :: uint8 list"
  have f8: "field_at ?d 8 = 54" by (simp add: field_at_def slice_def le32_value_def)
  have f16: "field_at ?d 16 = 2" by (simp add: field_at_def slice_def le32_value_def)
  have f20: "field_at ?d 20 = 2" by (simp add: field_at_def slice_def le32_value_def)
  have f30: "field_at ?d 30 = 1" by (simp add: field_at_def slice_def le32_value_def)
  have m: "le16_value (slice ?d 0 2) = 0x4D42" by (simp add: slice_def le16_value_def)
  have b: "le16_value (slice ?d 28 2) = 24" by (simp add: slice_def le16_value_def)
  have u: "Parse_unswapped ?d \<lparr>out_width = 0, out_height = 0, out_format = RGBA, out_pixels = []\<rparr>
       = Inr (True, \<lparr>out_width = 2, out_height = 2, out_format = RGBA, out_pixels = []\<rparr>)"
    by (simp add: Parse_unswapped_def Reader_open_def reads_at Let_def f8 f16 f20 f30 m b abs_int32_def)
  from f8 f16 f20 bmp_small_rejected u show ?thesis by simp
qed

section \<open>The parser on well-formed bitmap files\<close>

lemma slice4:
  "p + 4 \<le> length xs \<Longrightarrow> slice xs p 4 = [xs ! p, xs ! (p + 1), xs ! (p + 2), xs ! (p + 3)]"
  unfolding slice_def
  by (rule nth_equalityI)
     (auto simp: nth_Cons less_Suc_eq_0_disj numeral_3_eq_3 numeral_2_eq_2 split: nat.splits)

lemma le32_high: "HIWORD (le32_value [a, b, c, d]) = le16_value [c, d]"
  unfolding HIWORD_def le32_value_def le16_value_def m16
  by (rule bit_word_eqI) (auto simp: bit_simps dest: bit_imp_le_length)

lemma le32_low: "LOWORD (le32_value [a, b, c, d]) = le16_value [a, b]"
  unfolding LOWORD_def le32_value_def le16_value_def m16
  by (rule bit_word_eqI) (auto simp: bit_simps dest: bit_imp_le_length)

lemma le32_msb: "bit (le32_value [a, b, c, d]) 31 = bit d 7"
  unfolding le32_value_def by (auto simp: bit_simps dest: bit_imp_le_length)

lemma le32_bit15: "bit (le32_value [a, b, c, d]) 15 = bit b 7"
  unfolding le32_value_def by (auto simp: bit_simps dest: bit_imp_le_length)

lemma swap_msb: "bit (swap_words v) 31 = bit v 15"
  unfolding swap_words_or by (auto simp: bit_simps dest: bit_imp_le_length)

lemma sint_neg_iff: "sint (v :: uint32) < 0 \<longleftrightarrow> bit v 31"
  using bit_last_iff [of v] by simp

lemma field_bytes:
  "p + 4 \<le> length data \<Longrightarrow>
   field_at data p = le32_value [data ! p, data ! (p + 1), data ! (p + 2), data ! (p + 3)]"
  by (simp add: field_at_def slice4)

lemma read8_high:
  assumes "34 \<le> length data"
  shows "HIWORD (field_at data 8) = LOWORD (bfOffBits data)"
  using assms
  by (simp add: bfOffBits_def field_bytes [of 8] field_bytes [of 10] le32_high le32_low)

lemma read16_high:
  assumes "34 \<le> length data"
  shows "HIWORD (field_at data 16) = LOWORD (biWidth data)"
  using assms
  by (simp add: biWidth_def field_bytes [of 16] field_bytes [of 18] le32_high le32_low)

lemma read20_high:
  assumes "34 \<le> length data"
  shows "HIWORD (field_at data 20) = LOWORD (biHeight data)"
  using assms
  by (simp add: biHeight_def field_bytes [of 20] field_bytes [of 22] le32_high le32_low)

lemma read20_sign:
  assumes "34 \<le> length data"
  shows "sint (swap_words (field_at data 20)) < 0 \<longleftrightarrow> sint (biWidth data) < 0"
  using assms
  by (simp add: sint_neg_iff swap_msb biWidth_def field_bytes [of 20] field_bytes [of 18]
      le32_msb le32_bit15)

lemma HIWORD_large: "HIWORD v \<noteq> 0 \<Longrightarrow> \<not> v < 54"
proof
  assume h: "HIWORD v \<noteq> 0" and "v < 54"
  have "(54 :: uint32) < 0x10000" by simp
  with \<open>v < 54\<close> have "v < 0x10000" by (rule less_trans)
  then have "HIWORD v = 0" by (rule HIWORD_small)
  with h show False by simp
qed

lemma field_at_append: "p + 4 \<le> length xs \<Longrightarrow> field_at (xs @ ys) p = field_at xs p"
  by (simp add: field_at_def slice_append_left)

lemma bmp_1x1_bitfields:
  fixes d :: "uint8 list"
  assumes "d = [0x42, 0x4D, 70, 0, 0, 0, 0, 0, 0, 0, 66, 0, 0, 0, 40, 0, 0, 0, 1, 0, 0, 0, 1, 0, 0, 0,
      1, 0, 32, 0, 3, 0, 0, 0, 4, 0, 0, 0, 0x13, 0x0B, 0, 0, 0x13, 0x0B, 0, 0, 0, 0, 0, 0,
      0, 0, 0, 0, 0, 0, 0xFF, 0, 0, 0xFF, 0, 0, 0xFF, 0, 0, 0, 10, 20, 30, 0]"
  shows "bmp_wellformed d" "biBitCount d = 32" "biCompression d = 3"
    "LOWORD (bfOffBits d) \<noteq> 0" "LOWORD (biWidth d) = 1" "LOWORD (biHeight d) = 1"
proof -
  have f2: "field_at d 2 = 70" by (simp add: assms field_at_def slice_def le32_value_def)
  have f6: "field_at d 6 = 0" by (simp add: assms field_at_def slice_def le32_value_def)
  have f10: "field_at d 10 = 66" by (simp add: assms field_at_def slice_def le32_value_def)
  have f14: "field_at d 14 = 40" by (simp add: assms field_at_def slice_def le32_value_def)
  have f18: "field_at d 18 = 1" by (simp add: assms field_at_def slice_def le32_value_def)
  have f22: "field_at d 22 = 1" by (simp add: assms field_at_def slice_def le32_value_def)
  have f30: "field_at d 30 = 3" by (simp add: assms field_at_def slice_def le32_value_def)
  have m: "le16_value (slice d 0 2) = 0x4D42" by (simp add: assms slice_def le16_value_def)
  have pl: "le16_value (slice d 26 2) = 1" by (simp add: assms slice_def le16_value_def)
  have b: "le16_value (slice d 28 2) = 32" by (simp add: assms slice_def le16_value_def)
  have l: "length d = 70" by (simp add: assms)
  show "bmp_wellformed d"
    by (simp add: bmp_wellformed_def bfSize_def bfReserved_def bfOffBits_def biSize_def
        biWidth_def biHeight_def biPlanes_def biBitCount_def row_bytes_def
        f2 f6 f10 f14 f18 f22 m pl b l)
  show "biBitCount d = 32" by (simp add: biBitCount_def b)
  show "biCompression d = 3" by (simp add: biCompression_def f30)
  show "LOWORD (bfOffBits d) \<noteq> 0" by (simp add: bfOffBits_def f10 LOWORD_def)
  show "LOWORD (biWidth d) = 1" by (simp add: biWidth_def f18 LOWORD_def)
  show "LOWORD (biHeight d) = 1" by (simp add: biHeight_def f22 LOWORD_def)
qed

lemma bmp_65536x1_bitfields:
  fixes d :: "uint8 list"
  assumes "d = [0x42, 0x4D, 0x42, 0, 4, 0, 0, 0, 0, 0, 66, 0, 0, 0, 40, 0, 0, 0, 0, 0, 1, 0, 1, 0, 0, 0,
      1, 0, 32, 0, 3, 0, 0, 0, 0, 0, 4, 0, 0x13, 0x0B, 0, 0, 0x13, 0x0B, 0, 0, 0, 0, 0, 0,
      0, 0, 0, 0, 0, 0, 0xFF, 0, 0, 0xFF, 0, 0, 0xFF, 0, 0, 0] @ replicate 262144 0"
  shows "bmp_wellformed d" "biBitCount d = 32" "biCompression d = 3"
    "bfOffBits d = 66" "biWidth d = 65536" "biHeight d = 1"
    "Parse d \<lparr>out_width = 0, out_height = 0, out_format = RGBA, out_pixels = []\<rparr>
       = Inr (False, \<lparr>out_width = 0, out_height = 1, out_format = RGBA, out_pixels = []\<rparr>)"
proof -
  have f2: "field_at d 2 = 262210" unfolding assms
    by (subst field_at_append) (simp_all add: field_at_def slice_def le32_value_def)
  have f6: "field_at d 6 = 0" unfolding assms
    by (subst field_at_append) (simp_all add: field_at_def slice_def le32_value_def)
  have f8: "field_at d 8 = 0x420000" unfolding assms
    by (subst field_at_append) (simp_all add: field_at_def slice_def le32_value_def)
  have f10: "field_at d 10 = 66" unfolding assms
    by (subst field_at_append) (simp_all add: field_at_def slice_def le32_value_def)
  have f14: "field_at d 14 = 40" unfolding assms
    by (subst field_at_append) (simp_all add: field_at_def slice_def le32_value_def)
  have f16: "field_at d 16 = 0" unfolding assms
    by (subst field_at_append) (simp_all add: field_at_def slice_def le32_value_def)
  have f18: "field_at d 18 = 65536" unfolding assms
    by (subst field_at_append) (simp_all add: field_at_def slice_def le32_value_def)
  have f20: "field_at d 20 = 0x10001" unfolding assms
    by (subst field_at_append) (simp_all add: field_at_def slice_def le32_value_def)
  have f22: "field_at d 22 = 1" unfolding assms
    by (subst field_at_append) (simp_all add: field_at_def slice_def le32_value_def)
  have f30: "field_at d 30 = 3" unfolding assms
    by (subst field_at_append) (simp_all add: field_at_def slice_def le32_value_def)
  have m: "le16_value (slice d 0 2) = 0x4D42" unfolding assms
    by (subst slice_append_left) (simp_all add: slice_def le16_value_def)
  have pl: "le16_value (slice d 26 2) = 1" unfolding assms
    by (subst slice_append_left) (simp_all add: slice_def le16_value_def)
  have b: "le16_value (slice d 28 2) = 32" unfolding assms
    by (subst slice_append_left) (simp_all add: slice_def le16_value_def)
  have l: "length d = 262210" by (simp add: assms)
  show "bmp_wellformed d"
    by (simp add: bmp_wellformed_def bfSize_def bfReserved_def bfOffBits_def biSize_def
        biWidth_def biHeight_def biPlanes_def biBitCount_def row_bytes_def
        f2 f6 f10 f14 f18 f22 m pl b l)
  show "biBitCount d = 32" by (simp add: biBitCount_def b)
  show "biCompression d = 3" by (simp add: biCompression_def f30)
  show "bfOffBits d = 66" by (simp add: bfOffBits_def f10)
  show "biWidth d = 65536" by (simp add: biWidth_def f18)
  show "biHeight d = 1" by (simp add: biHeight_def f22)
  have sw0: "swap_words 0 = 0" by (simp add: swap_words_def HIWORD_def LOWORD_def)
  have sw1: "swap_words 0x10001 = 0x10001" by (simp add: swap_words_def HIWORD_def LOWORD_def)
  have l34: "34 \<le> length d" by (simp add: l)
  show "Parse d \<lparr>out_width = 0, out_height = 0, out_format = RGBA, out_pixels = []\<rparr>
       = Inr (False, \<lparr>out_width = 0, out_height = 1, out_format = RGBA, out_pixels = []\<rparr>)"
    unfolding Parse_long [OF l34] f8 f16 f20 f30 m b sw0 sw1
    by (simp add: abs_int32_def)
qed

text \<open>
  Claim C10, as amended. For every well-formed bitmap file of 24 or 32 bits per pixel
  whose compression field is not 0, and whose pixel offset, width and height each have a
  low 16-bit half other than 0, \<open>Parse\<close> returns true with the width and the height set
  to the low halves of the width and the height of the file, and with the format and
  the pixels as the caller passed them: the pixels are empty in \<open>main\<close>.
\<close>

theorem Parse_compressed_returns_true:
  assumes wf: "bmp_wellformed data"
    and bpp: "biBitCount data = 24 \<or> biBitCount data = 32"
    and comp: "biCompression data \<noteq> 0"
    and o: "LOWORD (bfOffBits data) \<noteq> 0"
    and w: "LOWORD (biWidth data) \<noteq> 0"
    and h: "LOWORD (biHeight data) \<noteq> 0"
  shows "Parse data out =
           Inr (True, out\<lparr>out_width := LOWORD (biWidth data),
                           out_height := LOWORD (biHeight data)\<rparr>)"
proof -
  from wf have l: "34 \<le> length data" and m: "le16_value (slice data 0 2) = 0x4D42"
    and pos: "0 < sint (biWidth data)"
    by (simp_all add: bmp_wellformed_def)
  from o have f8: "\<not> field_at data 8 < 54"
    by (intro HIWORD_large) (simp add: read8_high [OF l])
  have wd: "(ucast (swap_words (field_at data 16)) :: uint16) = LOWORD (biWidth data)"
    by (simp add: swap_words_low read16_high [OF l])
  from pos have "\<not> sint (swap_words (field_at data 20)) < 0"
    by (simp add: read20_sign [OF l])
  then have ht: "(ucast (abs_int32 (swap_words (field_at data 20))) :: uint16) = LOWORD (biHeight data)"
    by (simp add: abs_swap_low read20_high [OF l])
  from bpp have b: "le16_value (slice data 28 2) = 24 \<or> le16_value (slice data 28 2) = 32"
    by (simp add: biBitCount_def)
  from comp have c: "field_at data 30 \<noteq> 0" by (simp add: biCompression_def)
  show ?thesis
    unfolding Parse_long [OF l] wd ht using m f8 w h b c
    by (auto simp add: Let_def)
qed

text \<open>
  The amended claim at a complete bitmap file of 70 bytes: 1 by 1 pixel, 32 bits per
  pixel, compression 3 (\<open>BI_BITFIELDS\<close>), the three colour masks after the info header
  and the four bytes of the pixel at offset 66.
\<close>

theorem Parse_compressed_returns_true_witness:
  "bmp_wellformed
     [0x42, 0x4D, 70, 0, 0, 0, 0, 0, 0, 0, 66, 0, 0, 0, 40, 0, 0, 0, 1, 0, 0, 0, 1, 0, 0, 0,
      1, 0, 32, 0, 3, 0, 0, 0, 4, 0, 0, 0, 0x13, 0x0B, 0, 0, 0x13, 0x0B, 0, 0, 0, 0, 0, 0,
      0, 0, 0, 0, 0, 0, 0xFF, 0, 0, 0xFF, 0, 0, 0xFF, 0, 0, 0, 10, 20, 30, 0]
   \<and> biBitCount
     [0x42, 0x4D, 70, 0, 0, 0, 0, 0, 0, 0, 66, 0, 0, 0, 40, 0, 0, 0, 1, 0, 0, 0, 1, 0, 0, 0,
      1, 0, 32, 0, 3, 0, 0, 0, 4, 0, 0, 0, 0x13, 0x0B, 0, 0, 0x13, 0x0B, 0, 0, 0, 0, 0, 0,
      0, 0, 0, 0, 0, 0, 0xFF, 0, 0, 0xFF, 0, 0, 0xFF, 0, 0, 0, 10, 20, 30, 0] = 32
   \<and> biCompression
     [0x42, 0x4D, 70, 0, 0, 0, 0, 0, 0, 0, 66, 0, 0, 0, 40, 0, 0, 0, 1, 0, 0, 0, 1, 0, 0, 0,
      1, 0, 32, 0, 3, 0, 0, 0, 4, 0, 0, 0, 0x13, 0x0B, 0, 0, 0x13, 0x0B, 0, 0, 0, 0, 0, 0,
      0, 0, 0, 0, 0, 0, 0xFF, 0, 0, 0xFF, 0, 0, 0xFF, 0, 0, 0, 10, 20, 30, 0] = 3
   \<and> LOWORD (bfOffBits
     [0x42, 0x4D, 70, 0, 0, 0, 0, 0, 0, 0, 66, 0, 0, 0, 40, 0, 0, 0, 1, 0, 0, 0, 1, 0, 0, 0,
      1, 0, 32, 0, 3, 0, 0, 0, 4, 0, 0, 0, 0x13, 0x0B, 0, 0, 0x13, 0x0B, 0, 0, 0, 0, 0, 0,
      0, 0, 0, 0, 0, 0, 0xFF, 0, 0, 0xFF, 0, 0, 0xFF, 0, 0, 0, 10, 20, 30, 0]) \<noteq> 0
   \<and> LOWORD (biWidth
     [0x42, 0x4D, 70, 0, 0, 0, 0, 0, 0, 0, 66, 0, 0, 0, 40, 0, 0, 0, 1, 0, 0, 0, 1, 0, 0, 0,
      1, 0, 32, 0, 3, 0, 0, 0, 4, 0, 0, 0, 0x13, 0x0B, 0, 0, 0x13, 0x0B, 0, 0, 0, 0, 0, 0,
      0, 0, 0, 0, 0, 0, 0xFF, 0, 0, 0xFF, 0, 0, 0xFF, 0, 0, 0, 10, 20, 30, 0]) = 1
   \<and> LOWORD (biHeight
     [0x42, 0x4D, 70, 0, 0, 0, 0, 0, 0, 0, 66, 0, 0, 0, 40, 0, 0, 0, 1, 0, 0, 0, 1, 0, 0, 0,
      1, 0, 32, 0, 3, 0, 0, 0, 4, 0, 0, 0, 0x13, 0x0B, 0, 0, 0x13, 0x0B, 0, 0, 0, 0, 0, 0,
      0, 0, 0, 0, 0, 0, 0xFF, 0, 0, 0xFF, 0, 0, 0xFF, 0, 0, 0, 10, 20, 30, 0]) = 1
   \<and> Parse
     [0x42, 0x4D, 70, 0, 0, 0, 0, 0, 0, 0, 66, 0, 0, 0, 40, 0, 0, 0, 1, 0, 0, 0, 1, 0, 0, 0,
      1, 0, 32, 0, 3, 0, 0, 0, 4, 0, 0, 0, 0x13, 0x0B, 0, 0, 0x13, 0x0B, 0, 0, 0, 0, 0, 0,
      0, 0, 0, 0, 0, 0, 0xFF, 0, 0, 0xFF, 0, 0, 0xFF, 0, 0, 0, 10, 20, 30, 0]
     \<lparr>out_width = 0, out_height = 0, out_format = RGBA, out_pixels = []\<rparr>
     = Inr (True, \<lparr>out_width = 1, out_height = 1, out_format = RGBA, out_pixels = []\<rparr>)"
proof -
  note b = bmp_1x1_bitfields [OF refl]
  from b(2) have bpp: "biBitCount
     [0x42, 0x4D, 70, 0, 0, 0, 0, 0, 0, 0, 66, 0, 0, 0, 40, 0, 0, 0, 1, 0, 0, 0, 1, 0, 0, 0,
      1, 0, 32, 0, 3, 0, 0, 0, 4, 0, 0, 0, 0x13, 0x0B, 0, 0, 0x13, 0x0B, 0, 0, 0, 0, 0, 0,
      0, 0, 0, 0, 0, 0, 0xFF, 0, 0, 0xFF, 0, 0, 0xFF, 0, 0, 0, 10, 20, 30, 0] = 24
   \<or> biBitCount
     [0x42, 0x4D, 70, 0, 0, 0, 0, 0, 0, 0, 66, 0, 0, 0, 40, 0, 0, 0, 1, 0, 0, 0, 1, 0, 0, 0,
      1, 0, 32, 0, 3, 0, 0, 0, 4, 0, 0, 0, 0x13, 0x0B, 0, 0, 0x13, 0x0B, 0, 0, 0, 0, 0, 0,
      0, 0, 0, 0, 0, 0, 0xFF, 0, 0, 0xFF, 0, 0, 0xFF, 0, 0, 0, 10, 20, 30, 0] = 32" ..
  from b(3) have comp: "biCompression
     [0x42, 0x4D, 70, 0, 0, 0, 0, 0, 0, 0, 66, 0, 0, 0, 40, 0, 0, 0, 1, 0, 0, 0, 1, 0, 0, 0,
      1, 0, 32, 0, 3, 0, 0, 0, 4, 0, 0, 0, 0x13, 0x0B, 0, 0, 0x13, 0x0B, 0, 0, 0, 0, 0, 0,
      0, 0, 0, 0, 0, 0, 0xFF, 0, 0, 0xFF, 0, 0, 0xFF, 0, 0, 0, 10, 20, 30, 0] \<noteq> 0" by simp
  from b(5) have w: "LOWORD (biWidth
     [0x42, 0x4D, 70, 0, 0, 0, 0, 0, 0, 0, 66, 0, 0, 0, 40, 0, 0, 0, 1, 0, 0, 0, 1, 0, 0, 0,
      1, 0, 32, 0, 3, 0, 0, 0, 4, 0, 0, 0, 0x13, 0x0B, 0, 0, 0x13, 0x0B, 0, 0, 0, 0, 0, 0,
      0, 0, 0, 0, 0, 0, 0xFF, 0, 0, 0xFF, 0, 0, 0xFF, 0, 0, 0, 10, 20, 30, 0]) \<noteq> 0" by simp
  from b(6) have h: "LOWORD (biHeight
     [0x42, 0x4D, 70, 0, 0, 0, 0, 0, 0, 0, 66, 0, 0, 0, 40, 0, 0, 0, 1, 0, 0, 0, 1, 0, 0, 0,
      1, 0, 32, 0, 3, 0, 0, 0, 4, 0, 0, 0, 0x13, 0x0B, 0, 0, 0x13, 0x0B, 0, 0, 0, 0, 0, 0,
      0, 0, 0, 0, 0, 0, 0xFF, 0, 0, 0xFF, 0, 0, 0xFF, 0, 0, 0, 10, 20, 30, 0]) \<noteq> 0" by simp
  from Parse_compressed_returns_true [OF b(1) bpp comp b(4) w h,
         of "\<lparr>out_width = 0, out_height = 0, out_format = RGBA, out_pixels = []\<rparr>"] b
  show ?thesis by simp
qed

text \<open>
  Claim C10 as stated fails: a complete, well-formed bitmap file of 65536 by 1 pixels
  with 32 bits per pixel and compression 3 (\<open>BI_BITFIELDS\<close>), its three colour masks
  after the info header and its 262144 bytes of pixel data from offset 66 on. The low half of its
  width is 0, the parser takes that half for the width, and \<open>Parse\<close> returns false.
\<close>

theorem wide_bitmap_rejected:
  "bmp_wellformed
     ([0x42, 0x4D, 0x42, 0, 4, 0, 0, 0, 0, 0, 66, 0, 0, 0, 40, 0, 0, 0, 0, 0, 1, 0, 1, 0, 0, 0,
       1, 0, 32, 0, 3, 0, 0, 0, 0, 0, 4, 0, 0x13, 0x0B, 0, 0, 0x13, 0x0B, 0, 0, 0, 0, 0, 0,
       0, 0, 0, 0, 0, 0, 0xFF, 0, 0, 0xFF, 0, 0, 0xFF, 0, 0, 0] @ replicate 262144 0)
   \<and> biBitCount
     ([0x42, 0x4D, 0x42, 0, 4, 0, 0, 0, 0, 0, 66, 0, 0, 0, 40, 0, 0, 0, 0, 0, 1, 0, 1, 0, 0, 0,
       1, 0, 32, 0, 3, 0, 0, 0, 0, 0, 4, 0, 0x13, 0x0B, 0, 0, 0x13, 0x0B, 0, 0, 0, 0, 0, 0,
       0, 0, 0, 0, 0, 0, 0xFF, 0, 0, 0xFF, 0, 0, 0xFF, 0, 0, 0] @ replicate 262144 0) = 32
   \<and> biCompression
     ([0x42, 0x4D, 0x42, 0, 4, 0, 0, 0, 0, 0, 66, 0, 0, 0, 40, 0, 0, 0, 0, 0, 1, 0, 1, 0, 0, 0,
       1, 0, 32, 0, 3, 0, 0, 0, 0, 0, 4, 0, 0x13, 0x0B, 0, 0, 0x13, 0x0B, 0, 0, 0, 0, 0, 0,
       0, 0, 0, 0, 0, 0, 0xFF, 0, 0, 0xFF, 0, 0, 0xFF, 0, 0, 0] @ replicate 262144 0) = 3
   \<and> bfOffBits
     ([0x42, 0x4D, 0x42, 0, 4, 0, 0, 0, 0, 0, 66, 0, 0, 0, 40, 0, 0, 0, 0, 0, 1, 0, 1, 0, 0, 0,
       1, 0, 32, 0, 3, 0, 0, 0, 0, 0, 4, 0, 0x13, 0x0B, 0, 0, 0x13, 0x0B, 0, 0, 0, 0, 0, 0,
       0, 0, 0, 0, 0, 0, 0xFF, 0, 0, 0xFF, 0, 0, 0xFF, 0, 0, 0] @ replicate 262144 0) = 66
   \<and> biWidth
     ([0x42, 0x4D, 0x42, 0, 4, 0, 0, 0, 0, 0, 66, 0, 0, 0, 40, 0, 0, 0, 0, 0, 1, 0, 1, 0, 0, 0,
       1, 0, 32, 0, 3, 0, 0, 0, 0, 0, 4, 0, 0x13, 0x0B, 0, 0, 0x13, 0x0B, 0, 0, 0, 0, 0, 0,
       0, 0, 0, 0, 0, 0, 0xFF, 0, 0, 0xFF, 0, 0, 0xFF, 0, 0, 0] @ replicate 262144 0) = 65536
   \<and> biHeight
     ([0x42, 0x4D, 0x42, 0, 4, 0, 0, 0, 0, 0, 66, 0, 0, 0, 40, 0, 0, 0, 0, 0, 1, 0, 1, 0, 0, 0,
       1, 0, 32, 0, 3, 0, 0, 0, 0, 0, 4, 0, 0x13, 0x0B, 0, 0, 0x13, 0x0B, 0, 0, 0, 0, 0, 0,
       0, 0, 0, 0, 0, 0, 0xFF, 0, 0, 0xFF, 0, 0, 0xFF, 0, 0, 0] @ replicate 262144 0) = 1
   \<and> Parse
     ([0x42, 0x4D, 0x42, 0, 4, 0, 0, 0, 0, 0, 66, 0, 0, 0, 40, 0, 0, 0, 0, 0, 1, 0, 1, 0, 0, 0,
       1, 0, 32, 0, 3, 0, 0, 0, 0, 0, 4, 0, 0x13, 0x0B, 0, 0, 0x13, 0x0B, 0, 0, 0, 0, 0, 0,
       0, 0, 0, 0, 0, 0, 0xFF, 0, 0, 0xFF, 0, 0, 0xFF, 0, 0, 0] @ replicate 262144 0)
     \<lparr>out_width = 0, out_height = 0, out_format = RGBA, out_pixels = []\<rparr>
     = Inr (False, \<lparr>out_width = 0, out_height = 1, out_format = RGBA, out_pixels = []\<rparr>)"
proof -
  note b = bmp_65536x1_bitfields [OF refl]
  from b show ?thesis by (intro conjI)
qed

section \<open>The save path of the texture tool\<close>

lemma bmp_1x1_parses:
  "Parse [0x42, 0x4D, 58, 0, 0, 0, 0, 0, 0, 0, 54, 0, 0, 0, 40, 0, 0, 0, 1, 0, 0, 0, 1, 0, 0, 0,
      1, 0, 24, 0, 0, 0, 0, 0, 4, 0, 0, 0, 0, 0, 0, 0, 0, 0, 0, 0, 0, 0, 0, 0, 0, 0, 0, 0,
      10, 20, 30, 0]
     \<lparr>out_width = 0, out_height = 0, out_format = format, out_pixels = []\<rparr>
   = Inr (True, \<lparr>out_width = 1, out_height = 1, out_format = RGB, out_pixels = [30, 20, 10]\<rparr>)"
proof -
  let ?d = "[0x42, 0x4D, 58, 0, 0, 0, 0, 0, 0, 0, 54, 0, 0, 0, 40, 0, 0, 0, 1, 0, 0, 0, 1, 0, 0, 0,
      1, 0, 24, 0, 0, 0, 0, 0, 4, 0, 0, 0, 0, 0, 0, 0, 0, 0, 0, 0, 0, 0, 0, 0, 0, 0, 0, 0,
      10, 20, 30, 0] :: uint8 list"
  have f8: "field_at ?d 8 = 0x360000" by (simp add: field_at_def slice_def le32_value_def)
  have f16: "field_at ?d 16 = 0x10000" by (simp add: field_at_def slice_def le32_value_def)
  have f20: "field_at ?d 20 = 0x10000" by (simp add: field_at_def slice_def le32_value_def)
  have f30: "field_at ?d 30 = 0" by (simp add: field_at_def slice_def le32_value_def)
  have m: "le16_value (slice ?d 0 2) = 0x4D42" by (simp add: slice_def le16_value_def)
  have b: "le16_value (slice ?d 28 2) = 24" by (simp add: slice_def le16_value_def)
  have sw1: "swap_words 0x10000 = 1" by (simp add: swap_words_def HIWORD_def LOWORD_def)
  have sw2: "swap_words 0x360000 = 54" by (simp add: swap_words_def HIWORD_def LOWORD_def)
  have rs: "\<not> reserve_throws 1 1"
    by (simp add: reserve_throws_def reserve_request_def vector_max_size_def to_size_t_def)
  have l: "34 \<le> length ?d" by simp
  show ?thesis
    unfolding Parse_long [OF l] f8 f16 f20 f30 m b sw1 sw2
    by (simp add: abs_int32_def Source_seek_def read_uint8_at rs)
qed

lemma bmp_27000_throws:
  "Parse ([0x42, 0x4D, 0xF6, 0xF8, 0x5A, 0x82, 0, 0, 0, 0, 54, 0, 0, 0, 40, 0, 0, 0, 0x78, 0x69, 0, 0,
      0x78, 0x69, 0, 0, 1, 0, 24, 0, 0, 0, 0, 0, 0xC0, 0xF8, 0x5A, 0x82, 0x13, 0x0B, 0, 0,
      0x13, 0x0B, 0, 0, 0, 0, 0, 0, 0, 0, 0, 0] @ replicate 2187000000 0)
     \<lparr>out_width = 0, out_height = 0, out_format = format, out_pixels = []\<rparr>
   = Inl length_error"
proof -
  let ?d = "([0x42, 0x4D, 0xF6, 0xF8, 0x5A, 0x82, 0, 0, 0, 0, 54, 0, 0, 0, 40, 0, 0, 0, 0x78, 0x69, 0, 0,
      0x78, 0x69, 0, 0, 1, 0, 24, 0, 0, 0, 0, 0, 0xC0, 0xF8, 0x5A, 0x82, 0x13, 0x0B, 0, 0,
      0x13, 0x0B, 0, 0, 0, 0, 0, 0, 0, 0, 0, 0] @ replicate 2187000000 0) :: uint8 list"
  have f8: "field_at ?d 8 = 0x360000"
    by (subst field_at_append) (simp_all add: field_at_def slice_def le32_value_def)
  have f16: "field_at ?d 16 = 0x69780000"
    by (subst field_at_append) (simp_all add: field_at_def slice_def le32_value_def)
  have f20: "field_at ?d 20 = 0x69780000"
    by (subst field_at_append) (simp_all add: field_at_def slice_def le32_value_def)
  have f30: "field_at ?d 30 = 0"
    by (subst field_at_append) (simp_all add: field_at_def slice_def le32_value_def)
  have m: "le16_value (slice ?d 0 2) = 0x4D42"
    by (subst slice_append_left) (simp_all add: slice_def le16_value_def)
  have b: "le16_value (slice ?d 28 2) = 24"
    by (subst slice_append_left) (simp_all add: slice_def le16_value_def)
  have sw1: "swap_words 0x69780000 = 27000" by (simp add: swap_words_def HIWORD_def LOWORD_def)
  have rs: "reserve_throws 27000 27000"
    by (simp add: reserve_throws_def reserve_request_def vector_max_size_def to_size_t_def)
  have l: "34 \<le> length ?d" by simp
  show ?thesis
    unfolding Parse_long [OF l] f8 f16 f20 f30 m b sw1
    by (simp add: abs_int32_def rs)
qed

lemma upt_16: "[0..<16] = [0, 1, 2, 3, 4, 5, 6, 7, 8, 9, 10, 11, 12, 13, 14, 15]"
  by code_simp

lemma mip_scan_1x1:
  "width h = 1 \<Longrightarrow> height h = 1 \<Longrightarrow>
   foldl (mip_step h) (False, False, 0) [0..<16] = (True, True, 1)"
  unfolding upt_16 by (simp add: mip_step_def)

lemma patch_fields_failed: "os_fail s \<Longrightarrow> patch_fields s ps vs = s"
  by (induction s ps vs rule: patch_fields.induct) (simp_all add: overwrite_failed)

lemma finish_failed: "os_fail s \<Longrightarrow> HeaderSaver_finish saver h s = s"
  by (simp add: HeaderSaver_finish_def patch_fields_failed)

lemma texture_header_1x1:
  assumes "FileMagic fmt = 0x5448" "Version_1_0 fmt = 0x0100" "FixedMipCount fmt = 1"
  shows "texture_header fmt 1 1
     = \<lparr>magic = 0x5448, version = 0x0100, compression = 0, hasMips = True, width = 1,
        height = 1, mipmapOffsets = [0], mipmapLengths = [0]\<rparr>"
  using assms
  by (simp add: texture_header_def Header_init_def NotCompressed_def mip_scan_1x1 Let_def)

lemma save_texture_steps:
  "save_texture fmt w h pixelData dstFile =
     (let header = texture_header fmt w h;
          (saver, sink) = HeaderSaver_open dstFile header;
          header = header\<lparr>mipmapOffsets :=
                     (mipmapOffsets header)[0 := word_of_nat (StreamSink_position sink)]\<rparr>;
          header = header\<lparr>mipmapLengths :=
                     (mipmapLengths header)[0 := word_of_nat (length pixelData)]\<rparr>;
          (sink, n) = StreamSink_write sink pixelData
      in (HeaderSaver_finish saver header sink, header))"
  by (simp add: save_texture_def texture_header_def Let_def split_def)

lemma placeholder_image_length:
  "length (placeholder_image h) = 12 + 4 * length (mipmapOffsets h) + 4 * length (mipmapLengths h)"
  by (simp add: placeholder_image_def)

lemma write_past_room:
  assumes "\<not> os_fail s" "os_put s = length (os_bytes s)" "bs \<noteq> []"
    and "os_room s < length (os_bytes s) + length bs"
  shows "fst (StreamSink_write s bs)
     = s\<lparr>os_bytes := os_bytes s @ take (os_room s - length (os_bytes s)) bs,
          os_put := length (os_bytes s) + length (take (os_room s - length (os_bytes s)) bs),
          os_fail := True\<rparr>"
  using assms by (simp add: StreamSink_write_def ostream_write_def store_at_end Let_def)

lemma save_texture_refused:
  assumes f: "fresh_stream s"
    and hd: "header_size (FixedMipCount fmt) \<le> os_room s"
    and r: "os_room s < header_size (FixedMipCount fmt) + length px"
  shows "os_fail (fst (save_texture fmt w h px s))"
    and "os_bytes (fst (save_texture fmt w h px s))
      = placeholder_image (texture_header fmt w h)
          @ take (os_room s - header_size (FixedMipCount fmt)) px"
    and "os_put (fst (save_texture fmt w h px s)) = os_room s"
    and "os_room (fst (save_texture fmt w h px s)) = os_room s"
proof -
  let ?n = "FixedMipCount fmt"
  let ?H = "texture_header fmt w h"
  let ?s1 = "grow s (placeholder_image ?H)"
  from f have e: "os_bytes s = []" and g: "\<not> os_fail s" by (simp_all add: fresh_stream_def)
  from f have a: "appendable s (os_room s)" by (rule fresh_appendable) simp
  from hd have hs: "12 + 4 * length (mipmapOffsets ?H) + 4 * length (mipmapLengths ?H) \<le> os_room s"
    by (simp add: texture_header_slots header_size_def)
  have len: "length (placeholder_image ?H) = header_size ?n"
    by (simp add: placeholder_image_length texture_header_slots header_size_def)
  from hd r have ne: "px \<noteq> []" by auto
  obtain saver where op: "HeaderSaver_open s ?H = (saver, ?s1)"
    using HeaderSaver_open_fresh [OF a e hs] by simp
  have g1: "\<not> os_fail ?s1" using g by simp
  have p1: "os_put ?s1 = length (os_bytes ?s1)" using e by simp
  have r1: "os_room ?s1 < length (os_bytes ?s1) + length px" using e r len by simp
  note w = write_past_room [OF g1 p1 ne r1]
  have fl: "os_fail (fst (StreamSink_write ?s1 px))" unfolding w by simp
  have st: "fst (save_texture fmt w h px s) = fst (StreamSink_write ?s1 px)"
    unfolding save_texture_steps Let_def op split_conv
    by (simp add: split_def finish_failed [OF fl])
  show "os_fail (fst (save_texture fmt w h px s))" unfolding st by (rule fl)
  show "os_bytes (fst (save_texture fmt w h px s))
      = placeholder_image (texture_header fmt w h)
          @ take (os_room s - header_size (FixedMipCount fmt)) px"
    unfolding st w using e len by simp
  show "os_put (fst (save_texture fmt w h px s)) = os_room s"
    unfolding st w using e len hd r by simp
  show "os_room (fst (save_texture fmt w h px s)) = os_room s"
    unfolding st w by simp
qed

lemma save_texture_fits:
  assumes f: "fresh_stream s" and n: "0 < FixedMipCount fmt"
    and r: "header_size (FixedMipCount fmt) + length px \<le> os_room s"
  shows "\<not> os_fail (fst (save_texture fmt w h px s))"
    and "os_bytes (fst (save_texture fmt w h px s))
      = header_image (snd (save_texture fmt w h px s)) @ px"
proof -
  let ?n = "FixedMipCount fmt"
  from n have k: "length [px] \<le> ?n" by simp
  from r have r': "header_size ?n + length (concat [px]) \<le> os_room s" by simp
  note d = deferred_save_fresh [OF f texture_header_slots k r']
  from f have e: "os_bytes s = []" and g: "\<not> os_fail s"
    by (simp_all add: fresh_stream_def)
  show "\<not> os_fail (fst (save_texture fmt w h px s))"
    unfolding save_texture_deferred d using g by simp
  show "os_bytes (fst (save_texture fmt w h px s))
      = header_image (snd (save_texture fmt w h px s)) @ px"
    unfolding save_texture_deferred d using e by simp
qed

text \<open>
  Claim C8, as amended. The tool writes the header, the payload and the patch into the
  target stream itself and checks no result. When \<open>reserve\<close> throws in the parser, the
  exception leaves \<open>main\<close> before the target is opened. Whenever the parser returns true
  and the target opens, the tool exits with status 0 and the target is the stream as the
  save block leaves it. On a freshly opened target with at least one mip slot in the
  header: when the medium has room for the header and the payload, the stream is good at
  the end and the file is the patched header followed by the whole payload; when the
  medium has room for the header but not for the whole payload, the stream has failed
  and the file is the header with every offset and length still the placeholder 0,
  followed by the part of the payload that fitted.
\<close>

theorem save_writes_target_in_place:
  "(Parse srcFile \<lparr>out_width = 0, out_height = 0, out_format = format, out_pixels = []\<rparr>
       = Inl e \<longrightarrow>
     main_convert fmt srcFile format dstFile = Inl e)
   \<and> (Parse srcFile \<lparr>out_width = 0, out_height = 0, out_format = format, out_pixels = []\<rparr>
         = Inr (True, img) \<and> \<not> os_fail dstFile \<longrightarrow>
       main_convert fmt srcFile format dstFile
         = Inr (0, Some (fst (save_texture fmt (out_width img) (out_height img) (out_pixels img)
                                dstFile))))
   \<and> (fresh_stream dstFile \<and> 0 < FixedMipCount fmt
         \<and> header_size (FixedMipCount fmt) + length pixelData \<le> os_room dstFile \<longrightarrow>
       \<not> os_fail (fst (save_texture fmt w h pixelData dstFile))
       \<and> os_bytes (fst (save_texture fmt w h pixelData dstFile))
           = header_image (snd (save_texture fmt w h pixelData dstFile)) @ pixelData)
   \<and> (fresh_stream dstFile \<and> 0 < FixedMipCount fmt
         \<and> header_size (FixedMipCount fmt) \<le> os_room dstFile
         \<and> os_room dstFile < header_size (FixedMipCount fmt) + length pixelData \<longrightarrow>
       os_fail (fst (save_texture fmt w h pixelData dstFile))
       \<and> os_bytes (fst (save_texture fmt w h pixelData dstFile))
           = placeholder_image (texture_header fmt w h)
               @ take (os_room dstFile - header_size (FixedMipCount fmt)) pixelData)"
proof (intro conjI impI)
  assume "Parse srcFile \<lparr>out_width = 0, out_height = 0, out_format = format, out_pixels = []\<rparr>
       = Inl e"
  then show "main_convert fmt srcFile format dstFile = Inl e"
    by (simp add: main_convert_def)
next
  assume "Parse srcFile \<lparr>out_width = 0, out_height = 0, out_format = format, out_pixels = []\<rparr>
         = Inr (True, img) \<and> \<not> os_fail dstFile"
  then show "main_convert fmt srcFile format dstFile
         = Inr (0, Some (fst (save_texture fmt (out_width img) (out_height img) (out_pixels img)
                                dstFile)))"
    by (simp add: main_convert_def split_def)
next
  assume a: "fresh_stream dstFile \<and> 0 < FixedMipCount fmt
         \<and> header_size (FixedMipCount fmt) + length pixelData \<le> os_room dstFile"
  then have f: "fresh_stream dstFile" and n: "0 < FixedMipCount fmt"
    and r: "header_size (FixedMipCount fmt) + length pixelData \<le> os_room dstFile" by simp_all
  show "\<not> os_fail (fst (save_texture fmt w h pixelData dstFile))"
    by (rule save_texture_fits(1) [OF f n r])
  show "os_bytes (fst (save_texture fmt w h pixelData dstFile))
           = header_image (snd (save_texture fmt w h pixelData dstFile)) @ pixelData"
    by (rule save_texture_fits(2) [OF f n r])
next
  assume a: "fresh_stream dstFile \<and> 0 < FixedMipCount fmt
         \<and> header_size (FixedMipCount fmt) \<le> os_room dstFile
         \<and> os_room dstFile < header_size (FixedMipCount fmt) + length pixelData"
  then have f: "fresh_stream dstFile" and hd: "header_size (FixedMipCount fmt) \<le> os_room dstFile"
    and r: "os_room dstFile < header_size (FixedMipCount fmt) + length pixelData" by simp_all
  show "os_fail (fst (save_texture fmt w h pixelData dstFile))"
    by (rule save_texture_refused(1) [OF f hd r])
  show "os_bytes (fst (save_texture fmt w h pixelData dstFile))
           = placeholder_image (texture_header fmt w h)
               @ take (os_room dstFile - header_size (FixedMipCount fmt)) pixelData"
    by (rule save_texture_refused(2) [OF f hd r])
qed

text \<open>
  The amended claim at three runs of the tool: a 27000 by 27000 bitmap, for which
  \<open>reserve\<close> throws; a 1 by 1 bitmap saved to a medium with room for a hundred bytes;
  and the same bitmap saved to a medium with room for 21 bytes, the header taking 20.
\<close>

theorem save_writes_target_in_place_witness:
  "Parse ([0x42, 0x4D, 0xF6, 0xF8, 0x5A, 0x82, 0, 0, 0, 0, 54, 0, 0, 0, 40, 0, 0, 0, 0x78, 0x69, 0, 0,
      0x78, 0x69, 0, 0, 1, 0, 24, 0, 0, 0, 0, 0, 0xC0, 0xF8, 0x5A, 0x82, 0x13, 0x0B, 0, 0,
      0x13, 0x0B, 0, 0, 0, 0, 0, 0, 0, 0, 0, 0] @ replicate 2187000000 0)
     \<lparr>out_width = 0, out_height = 0, out_format = RGBA, out_pixels = []\<rparr> = Inl length_error
   \<and> main_convert \<lparr>FileMagic = 0x5448, Version_1_0 = 0x0100, FixedMipCount = 1\<rparr>
       ([0x42, 0x4D, 0xF6, 0xF8, 0x5A, 0x82, 0, 0, 0, 0, 54, 0, 0, 0, 40, 0, 0, 0, 0x78, 0x69, 0, 0,
      0x78, 0x69, 0, 0, 1, 0, 24, 0, 0, 0, 0, 0, 0xC0, 0xF8, 0x5A, 0x82, 0x13, 0x0B, 0, 0,
      0x13, 0x0B, 0, 0, 0, 0, 0, 0, 0, 0, 0, 0] @ replicate 2187000000 0)
       RGBA \<lparr>os_bytes = [], os_put = 0, os_fail = False, os_room = 100\<rparr> = Inl length_error
   \<and> Parse [0x42, 0x4D, 58, 0, 0, 0, 0, 0, 0, 0, 54, 0, 0, 0, 40, 0, 0, 0, 1, 0, 0, 0, 1, 0, 0, 0,
      1, 0, 24, 0, 0, 0, 0, 0, 4, 0, 0, 0, 0, 0, 0, 0, 0, 0, 0, 0, 0, 0, 0, 0, 0, 0, 0, 0,
      10, 20, 30, 0]
       \<lparr>out_width = 0, out_height = 0, out_format = RGBA, out_pixels = []\<rparr>
      = Inr (True, \<lparr>out_width = 1, out_height = 1, out_format = RGB, out_pixels = [30, 20, 10]\<rparr>)
   \<and> main_convert \<lparr>FileMagic = 0x5448, Version_1_0 = 0x0100, FixedMipCount = 1\<rparr>
       [0x42, 0x4D, 58, 0, 0, 0, 0, 0, 0, 0, 54, 0, 0, 0, 40, 0, 0, 0, 1, 0, 0, 0, 1, 0, 0, 0,
      1, 0, 24, 0, 0, 0, 0, 0, 4, 0, 0, 0, 0, 0, 0, 0, 0, 0, 0, 0, 0, 0, 0, 0, 0, 0, 0, 0,
      10, 20, 30, 0]
       RGBA \<lparr>os_bytes = [], os_put = 0, os_fail = False, os_room = 100\<rparr>
      = Inr (0, Some (fst (save_texture \<lparr>FileMagic = 0x5448, Version_1_0 = 0x0100, FixedMipCount = 1\<rparr>
                1 1 [30, 20, 10] \<lparr>os_bytes = [], os_put = 0, os_fail = False, os_room = 100\<rparr>)))
   \<and> fresh_stream \<lparr>os_bytes = [], os_put = 0, os_fail = False, os_room = 100\<rparr>
   \<and> header_size 1 + length [30, 20, 10 :: uint8] \<le> 100
   \<and> \<not> os_fail (fst (save_texture \<lparr>FileMagic = 0x5448, Version_1_0 = 0x0100, FixedMipCount = 1\<rparr>
        1 1 [30, 20, 10] \<lparr>os_bytes = [], os_put = 0, os_fail = False, os_room = 100\<rparr>))
   \<and> os_bytes (fst (save_texture \<lparr>FileMagic = 0x5448, Version_1_0 = 0x0100, FixedMipCount = 1\<rparr>
        1 1 [30, 20, 10] \<lparr>os_bytes = [], os_put = 0, os_fail = False, os_room = 100\<rparr>))
      = header_image (snd (save_texture \<lparr>FileMagic = 0x5448, Version_1_0 = 0x0100, FixedMipCount = 1\<rparr>
        1 1 [30, 20, 10] \<lparr>os_bytes = [], os_put = 0, os_fail = False, os_room = 100\<rparr>))
        @ [30, 20, 10]
   \<and> fresh_stream \<lparr>os_bytes = [], os_put = 0, os_fail = False, os_room = 21\<rparr>
   \<and> header_size 1 \<le> 21 \<and> 21 < header_size 1 + length [30, 20, 10 :: uint8]
   \<and> os_fail (fst (save_texture \<lparr>FileMagic = 0x5448, Version_1_0 = 0x0100, FixedMipCount = 1\<rparr>
        1 1 [30, 20, 10] \<lparr>os_bytes = [], os_put = 0, os_fail = False, os_room = 21\<rparr>))
   \<and> os_bytes (fst (save_texture \<lparr>FileMagic = 0x5448, Version_1_0 = 0x0100, FixedMipCount = 1\<rparr>
        1 1 [30, 20, 10] \<lparr>os_bytes = [], os_put = 0, os_fail = False, os_room = 21\<rparr>))
      = placeholder_image (texture_header \<lparr>FileMagic = 0x5448, Version_1_0 = 0x0100, FixedMipCount = 1\<rparr> 1 1)
        @ [30]"
proof -
  let ?s = "\<lparr>os_bytes = [], os_put = 0, os_fail = False, os_room = 100\<rparr>"
  let ?t = "\<lparr>os_bytes = [], os_put = 0, os_fail = False, os_room = 21\<rparr>"
  let ?fmt = "\<lparr>FileMagic = 0x5448, Version_1_0 = 0x0100, FixedMipCount = 1\<rparr>"
  let ?d = "([0x42, 0x4D, 0xF6, 0xF8, 0x5A, 0x82, 0, 0, 0, 0, 54, 0, 0, 0, 40, 0, 0, 0, 0x78, 0x69, 0, 0,
      0x78, 0x69, 0, 0, 1, 0, 24, 0, 0, 0, 0, 0, 0xC0, 0xF8, 0x5A, 0x82, 0x13, 0x0B, 0, 0,
      0x13, 0x0B, 0, 0, 0, 0, 0, 0, 0, 0, 0, 0] @ replicate 2187000000 0) :: uint8 list"
  let ?img = "\<lparr>out_width = 1, out_height = 1, out_format = RGB, out_pixels = [30, 20, 10]\<rparr>"
  have g: "\<not> os_fail ?s" by simp
  have f: "fresh_stream ?s" "fresh_stream ?t" by (simp_all add: fresh_stream_def)
  have r: "header_size 1 + length [30, 20, 10 :: uint8] \<le> 100"
    "header_size 1 \<le> 21" "21 < header_size 1 + length [30, 20, 10 :: uint8]"
    "21 - header_size 1 = 1"
    by (simp_all add: header_size_def)
  from save_writes_target_in_place
         [of ?d RGBA length_error ?fmt ?s ?img "[30, 20, 10]" 1 1]
       bmp_27000_throws [of RGBA]
  have t1: "main_convert ?fmt ?d RGBA ?s = Inl length_error" by blast
  from save_writes_target_in_place
         [of "[0x42, 0x4D, 58, 0, 0, 0, 0, 0, 0, 0, 54, 0, 0, 0, 40, 0, 0, 0, 1, 0, 0, 0, 1, 0, 0, 0,
      1, 0, 24, 0, 0, 0, 0, 0, 4, 0, 0, 0, 0, 0, 0, 0, 0, 0, 0, 0, 0, 0, 0, 0, 0, 0, 0, 0,
      10, 20, 30, 0]" RGBA length_error ?fmt ?s ?img "[30, 20, 10]" 1 1]
       bmp_1x1_parses [of RGBA] g f(1) r(1)
  have t2: "main_convert ?fmt [0x42, 0x4D, 58, 0, 0, 0, 0, 0, 0, 0, 54, 0, 0, 0, 40, 0, 0, 0, 1, 0, 0, 0, 1, 0, 0, 0,
      1, 0, 24, 0, 0, 0, 0, 0, 4, 0, 0, 0, 0, 0, 0, 0, 0, 0, 0, 0, 0, 0, 0, 0, 0, 0, 0, 0,
      10, 20, 30, 0] RGBA ?s
      = Inr (0, Some (fst (save_texture ?fmt 1 1 [30, 20, 10] ?s)))"
    and t3: "\<not> os_fail (fst (save_texture ?fmt 1 1 [30, 20, 10] ?s))"
    and t4: "os_bytes (fst (save_texture ?fmt 1 1 [30, 20, 10] ?s))
      = header_image (snd (save_texture ?fmt 1 1 [30, 20, 10] ?s)) @ [30, 20, 10]"
    by simp_all
  from save_writes_target_in_place
         [of ?d RGBA length_error ?fmt ?t ?img "[30, 20, 10]" 1 1] f(2) r(2,3,4)
  have t5: "os_fail (fst (save_texture ?fmt 1 1 [30, 20, 10] ?t))"
    and t6: "os_bytes (fst (save_texture ?fmt 1 1 [30, 20, 10] ?t))
      = placeholder_image (texture_header ?fmt 1 1) @ [30]"
    by simp_all
  from bmp_27000_throws [of RGBA] bmp_1x1_parses [of RGBA] t1 t2 t3 t4 t5 t6 f r
  show ?thesis by simp
qed

text \<open>
  Claim C8 as stated fails: the medium has room for 21 bytes, the header takes 20, the
  write of the three payload bytes is refused after the first, \<open>finish()\<close> patches
  nothing on the failed stream, and the tool exits with status 0. The file left at the
  target loads as a valid header whose offset and length are the placeholders, 0.
\<close>

theorem refused_save_leaves_placeholder_file:
  "main_convert \<lparr>FileMagic = 0x5448, Version_1_0 = 0x0100, FixedMipCount = 1\<rparr>
     [0x42, 0x4D, 58, 0, 0, 0, 0, 0, 0, 0, 54, 0, 0, 0, 40, 0, 0, 0, 1, 0, 0, 0, 1, 0, 0, 0,
      1, 0, 24, 0, 0, 0, 0, 0, 4, 0, 0, 0, 0, 0, 0, 0, 0, 0, 0, 0, 0, 0, 0, 0, 0, 0, 0, 0,
      10, 20, 30, 0]
     RGBA \<lparr>os_bytes = [], os_put = 0, os_fail = False, os_room = 21\<rparr>
   = Inr (0, Some \<lparr>os_bytes = [0x48, 0x54, 0, 1, 0, 0, 0, 1, 1, 0, 1, 0, 0, 0, 0, 0, 0, 0, 0, 0, 30],
               os_put = 21, os_fail = True, os_room = 21\<rparr>)
   \<and> main_info \<lparr>FileMagic = 0x5448, Version_1_0 = 0x0100, FixedMipCount = 1\<rparr>
        [0x48, 0x54, 0, 1, 0, 0, 0, 1, 1, 0, 1, 0, 0, 0, 0, 0, 0, 0, 0, 0, 30]
      = (0, Some \<lparr>magic = 0x5448, version = 0x0100, compression = 0, hasMips = True, width = 1,
        height = 1, mipmapOffsets = [0], mipmapLengths = [0]\<rparr>)"
proof -
  let ?fmt = "\<lparr>FileMagic = 0x5448, Version_1_0 = 0x0100, FixedMipCount = 1\<rparr>"
  let ?s = "\<lparr>os_bytes = [], os_put = 0, os_fail = False, os_room = 21\<rparr>"
  let ?h = "\<lparr>magic = 0x5448, version = 0x0100, compression = 0, hasMips = True, width = 1,
        height = 1, mipmapOffsets = [0], mipmapLengths = [0]\<rparr> :: Header"
  have f: "fresh_stream ?s" by (simp add: fresh_stream_def)
  have hd: "header_size (FixedMipCount ?fmt) \<le> os_room ?s" by (simp add: header_size_def)
  have r: "os_room ?s < header_size (FixedMipCount ?fmt) + length [30, 20, 10 :: uint8]"
    by (simp add: header_size_def)
  have th: "texture_header ?fmt 1 1 = ?h" by (rule texture_header_1x1) simp_all
  have pl: "placeholder_image ?h = [0x48, 0x54, 0, 1, 0, 0, 0, 1, 1, 0, 1, 0, 0, 0, 0, 0, 0, 0, 0, 0]"
    by (simp add: placeholder_image_def le16_bytes_def le32_bytes_def)
  have fl: "os_fail (fst (save_texture ?fmt 1 1 [30, 20, 10] ?s))"
    by (rule save_texture_refused(1) [OF f hd r])
  have bt: "os_bytes (fst (save_texture ?fmt 1 1 [30, 20, 10] ?s)) = [0x48, 0x54, 0, 1, 0, 0, 0, 1, 1, 0, 1, 0, 0, 0, 0, 0, 0, 0, 0, 0, 30]"
    unfolding save_texture_refused(2) [OF f hd r] th pl by (simp add: header_size_def)
  have mc: "main_convert ?fmt
     [0x42, 0x4D, 58, 0, 0, 0, 0, 0, 0, 0, 54, 0, 0, 0, 40, 0, 0, 0, 1, 0, 0, 0, 1, 0, 0, 0,
      1, 0, 24, 0, 0, 0, 0, 0, 4, 0, 0, 0, 0, 0, 0, 0, 0, 0, 0, 0, 0, 0, 0, 0, 0, 0, 0, 0,
      10, 20, 30, 0] RGBA ?s
     = Inr (0, Some (fst (save_texture ?fmt 1 1 [30, 20, 10] ?s)))"
    using bmp_1x1_parses [of RGBA] by (simp add: main_convert_def split_def)
  have img: "header_image ?h @ [30]
      = [0x48, 0x54, 0, 1, 0, 0, 0, 1, 1, 0, 1, 0, 0, 0, 0, 0, 0, 0, 0, 0, 30]"
    by (simp add: header_image_def le16_bytes_def le32_bytes_def)
  have mi: "main_info ?fmt
        [0x48, 0x54, 0, 1, 0, 0, 0, 1, 1, 0, 1, 0, 0, 0, 0, 0, 0, 0, 0, 0, 30]
      = (0, Some ?h)"
    using main_info_header_image [of ?h ?fmt "[30]"]
    unfolding img by simp
  have "fst (save_texture ?fmt 1 1 [30, 20, 10] ?s)
      = \<lparr>os_bytes = [0x48, 0x54, 0, 1, 0, 0, 0, 1, 1, 0, 1, 0, 0, 0, 0, 0, 0, 0, 0, 0, 30],
               os_put = 21, os_fail = True, os_room = 21\<rparr>"
    using fl bt save_texture_refused(3) [OF f hd r] save_texture_refused(4) [OF f hd r]
    by (intro ostream.equality) simp_all
  with mc mi show ?thesis by (simp only:)
qed

end
